theory Spec2Isabelle
  imports Main
begin

section \<open>SecureUpload: the scanning core of the upload pipeline\<close>

text \<open>
  The development embeds three source files:
  \<^item> the upload controller (\<^verbatim>\<open>src/unnamed/part_002\<close>): \<^verbatim>\<open>uploadToCloudinary\<close>,
    \<^verbatim>\<open>uploadHandler\<close> and the per-resource mapping of \<^verbatim>\<open>listAll\<close>;
  \<^item> the original scanner client (\<^verbatim>\<open>src/backend/utils/virusTotal.js\<close>): \<^verbatim>\<open>scanFile\<close>,
    \<^verbatim>\<open>getAnalysis\<close>, here with the suffix \<open>_orig\<close>;
  \<^item> the revised scanner client (\<^verbatim>\<open>src/unnamed/part_001\<close>): \<^verbatim>\<open>getAnalysis\<close>, here with the
    suffix \<open>_rev\<close>, and \<^verbatim>\<open>waitForAnalysis\<close>.

  Asynchronous code is sequential (every promise is awaited at once), so it is modelled
  by explicit state passing: the outside world (the remote scanner, the blob store) is a
  state \<open>'w\<close>, every outbound call is a function that takes the world and returns a result
  with the next world, and a rejected promise or a \<^verbatim>\<open>throw\<close> is \<open>Inl\<close> of a \<open>js_error\<close>. The
  controller, the polling loops and \<^verbatim>\<open>scanFile\<close> also return the list of the effects they
  performed (calls and timer waits) in order. Logging (\<^verbatim>\<open>console.log\<close>, \<^verbatim>\<open>console.error\<close>) is
  left out.
\<close>

subsection \<open>JavaScript strings\<close>

text \<open>
  File names are \<open>string\<close>s, that is lists of 8-bit characters. \<^verbatim>\<open>toLowerCase\<close> maps the ASCII
  capitals to their small letters and leaves every other character as it is; the case
  mappings of characters beyond ASCII are outside the model.
\<close>

definition lower_char :: "char \<Rightarrow> char" where
  "lower_char c =
     (let n = (of_char c :: nat) in if 65 \<le> n \<and> n \<le> 90 then char_of (n + 32) else c)"

definition toLowerCase :: "string \<Rightarrow> string" where
  "toLowerCase s = map lower_char s"

definition startsWith :: "string \<Rightarrow> string \<Rightarrow> bool" where
  \<comment> \<open>\<^verbatim>\<open>s.startsWith(p)\<close>\<close>
  "startsWith s p = (take (length p) s = p)"

primrec str_includes :: "string \<Rightarrow> string \<Rightarrow> bool" where
  \<comment> \<open>\<^verbatim>\<open>s.includes(p)\<close>: \<open>p\<close> occurs in \<open>s\<close> at some position\<close>
  "str_includes [] p = (p = [])"
| "str_includes (c # cs) p = (startsWith (c # cs) p \<or> str_includes cs p)"

definition truthy :: "string option \<Rightarrow> string option" where
  \<comment> \<open>a possibly missing string in a condition: \<^verbatim>\<open>undefined\<close>, \<^verbatim>\<open>null\<close> and \<^verbatim>\<open>''\<close> are falsy;
      \<open>Some s\<close> is the truthy value\<close>
  "truthy x = (case x of None \<Rightarrow> None | Some s \<Rightarrow> if s = [] then None else Some s)"

subsection \<open>Errors and remote data\<close>

text \<open>
  A thrown value: its \<^verbatim>\<open>message\<close> and, for a failed HTTP request that got an answer, the
  \<^verbatim>\<open>response\<close> with its \<^verbatim>\<open>status\<close> and \<^verbatim>\<open>data?.error?.code\<close>. A body that lacks an expected
  object makes the property access throw a \<^verbatim>\<open>TypeError\<close> inside the same \<^verbatim>\<open>try\<close> block as
  the request that fetched it, so it is one of the errors without \<^verbatim>\<open>response\<close>.
\<close>

record err_response =
  resp_status :: nat
  resp_error_code :: "string option"

datatype js_error = JsError (message: string) (response: "err_response option")

definition Error :: "string \<Rightarrow> js_error" where
  \<comment> \<open>\<^verbatim>\<open>new Error(msg)\<close>\<close>
  "Error msg = JsError msg None"

record scan_stats =
  malicious :: int
  suspicious :: int
  harmless :: int

text \<open>The object \<^verbatim>\<open>{attributes: {status, stats}}\<close>; \<^verbatim>\<open>stats\<close> may be missing.\<close>

record analysis =
  status :: string
  stats :: "scan_stats option"

type_synonym buffer = "nat list"

subsection \<open>The upload controller\<close>

record upload_file =
  buffer :: buffer
  mimetype :: string
  originalname :: string
  file_size :: nat

record request =
  req_userId :: "string option"
  req_file :: "upload_file option"

text \<open>The options object \<^verbatim>\<open>uploadToCloudinary\<close> hands to \<^verbatim>\<open>upload_stream\<close>.\<close>

record upload_options =
  opt_public_id :: string
  opt_tags :: "string list"
  ctx_verdict :: string
  ctx_originalName :: string
  ctx_userId :: string

record uploaded =
  public_id :: string
  secure_url :: string

record cloudinary_error =
  ce_message :: "string option"
  ce_error :: "string option option"
  ce_http_code :: "nat option"

text \<open>
  What the handler sends: \<^verbatim>\<open>res.json({id, originalName, url, verdict, userId})\<close> or
  \<^verbatim>\<open>res.status(code).json({error: msg, ...})\<close> (of an error body only \<^verbatim>\<open>error\<close> is kept).
\<close>

datatype response =
    FileJson string string "string option" string string
  | ErrorJson nat string

fun response_verdict :: "response \<Rightarrow> string option" where
  "response_verdict (FileJson i n u v uid) = Some v"
| "response_verdict (ErrorJson c m) = None"

text \<open>
  The effects of the controller, in the order they happen: a call of \<^verbatim>\<open>scanFile\<close> (with the
  name submitted), a call of \<^verbatim>\<open>getAnalysis\<close> (with the handle polled and what the call
  gave), a wait \<^verbatim>\<open>setTimeout(r, ms)\<close> and a call of the blob store's uploader.
\<close>

datatype event =
    ScanFile string
  | GetAnalysis string "js_error + analysis"
  | Timeout nat
  | UploadStream upload_options

definition knownMaliciousNames :: "string list" where
  "knownMaliciousNames =
     [''eicar'', ''eicar.txt'', ''eicar.com'', ''eicar_com.zip'', ''eicarcom2.zip'']"

definition isKnownMalicious :: "string \<Rightarrow> bool" where
  \<comment> \<open>\<^verbatim>\<open>knownMaliciousNames.some(name => originalname.toLowerCase().includes(name))\<close>\<close>
  "isKnownMalicious originalName =
     list_ex (\<lambda>name. str_includes (toLowerCase originalName) name) knownMaliciousNames"

definition allowed :: "string list" where
  "allowed = [''pdf'', ''png'', ''jpg'', ''jpeg'', ''docx'', ''txt'', ''zip'', ''exe'']"

definition uploadToCloudinary ::
  "(upload_options \<Rightarrow> buffer \<Rightarrow> 'w \<Rightarrow> (cloudinary_error + uploaded) \<times> 'w) \<Rightarrow>
   buffer \<Rightarrow> string \<Rightarrow> string \<Rightarrow> string \<Rightarrow> string \<Rightarrow> 'w \<Rightarrow>
   ((cloudinary_error + uploaded) \<times> 'w) \<times> event list" where
  "uploadToCloudinary upload_stream buf publicId verdict originalName uid w =
     (let opts = \<lparr> opt_public_id = publicId,
                    opt_tags = (if verdict \<noteq> [] then [verdict, uid] else [uid]),
                    ctx_verdict = verdict, ctx_originalName = originalName,
                    ctx_userId = uid \<rparr>
      in (upload_stream opts buf w, [UploadStream opts]))"

text \<open>
  Lines 66--68 of \<^verbatim>\<open>uploadHandler\<close>: the verdict read off one poll result. Reading
  \<^verbatim>\<open>stats.malicious\<close> off a completed result without \<^verbatim>\<open>stats\<close> throws.
\<close>

definition verdict_of :: "analysis \<Rightarrow> js_error + string" where
  "verdict_of r =
     (if status r = ''completed''
      then (case stats r of
              None \<Rightarrow> Inl (Error ''TypeError'')
            | Some s \<Rightarrow> Inr (if malicious s > 0 then ''malicious'' else ''clean''))
      else Inr ''pending'')"

text \<open>
  The outcome of lines 65--68, the \<^verbatim>\<open>try\<close> body up to the new verdict, given what
  \<^verbatim>\<open>getAnalysis\<close> gave: a throw of \<^verbatim>\<open>getAnalysis\<close> and a throw of the verdict expression land
  in the same \<^verbatim>\<open>catch\<close>.
\<close>

definition try_verdict :: "js_error + analysis \<Rightarrow> js_error + string" where
  "try_verdict r = (case r of Inl e \<Rightarrow> Inl e | Inr a \<Rightarrow> verdict_of a)"

definition maxRetries :: nat where
  "maxRetries = 3"

text \<open>
  The \<^verbatim>\<open>while (verdict === 'pending' && retryCount < maxRetries)\<close> loop of lines 63--88,
  from the loop state \<open>(verdict, retryCount)\<close>.
\<close>

function poll_loop ::
  "(string \<Rightarrow> 'w \<Rightarrow> (js_error + analysis) \<times> 'w) \<Rightarrow> string \<Rightarrow> string \<Rightarrow> nat \<Rightarrow> 'w \<Rightarrow>
   string \<times> 'w \<times> event list" where
  "poll_loop getAnalysis vtId verdict retryCount w =
     (if verdict = ''pending'' \<and> retryCount < maxRetries then
        (case getAnalysis vtId w of (r, w1) \<Rightarrow>
           (case try_verdict r of
              Inr v \<Rightarrow>
                (if v = ''pending''
                 then (case poll_loop getAnalysis vtId v (retryCount + 1) w1 of
                         (v', w', tr) \<Rightarrow> (v', w', GetAnalysis vtId r # Timeout 5000 # tr))
                 else (case poll_loop getAnalysis vtId v retryCount w1 of
                         (v', w', tr) \<Rightarrow> (v', w', GetAnalysis vtId r # tr)))
            | Inl analysisError \<Rightarrow>
                (if retryCount \<ge> maxRetries - 1 then (''clean'', w1, [GetAnalysis vtId r])
                 else (case poll_loop getAnalysis vtId verdict (retryCount + 1) w1 of
                         (v', w', tr) \<Rightarrow> (v', w', GetAnalysis vtId r # Timeout 5000 # tr)))))
      else (verdict, w, []))"
  by pat_completeness auto
termination
  by (relation "measure (\<lambda>(g, vtId, verdict, retryCount, w).
                   if verdict = ''pending'' then Suc (maxRetries - retryCount) else 0)")
     (auto simp: maxRetries_def)

text \<open>
  Lines 51--104 of \<^verbatim>\<open>uploadHandler\<close>, the scanning block: \<^verbatim>\<open>scanFile\<close> and \<^verbatim>\<open>getAnalysis\<close>
  are the imports from the scanner client (mocked in the controller's tests), so they are
  parameters. The file is submitted under its \<^verbatim>\<open>publicId\<close>. The initial
  \<^verbatim>\<open>verdict = 'unknown'\<close> is overwritten on every path: by \<^verbatim>\<open>'pending'\<close> before the loop,
  by \<^verbatim>\<open>'clean'\<close> when \<^verbatim>\<open>vtId\<close> is falsy and in \<^verbatim>\<open>catch (vtError)\<close>.
\<close>

definition scanVerdict ::
  "(buffer \<Rightarrow> string \<Rightarrow> 'w \<Rightarrow> (js_error + string) \<times> 'w) \<Rightarrow>
   (string \<Rightarrow> 'w \<Rightarrow> (js_error + analysis) \<times> 'w) \<Rightarrow>
   upload_file \<Rightarrow> string \<Rightarrow> 'w \<Rightarrow> string \<times> 'w \<times> event list" where
  "scanVerdict scanFile getAnalysis f publicId w =
     (case scanFile (buffer f) publicId w of
        (Inl vtError, w1) \<Rightarrow> (''clean'', w1, [ScanFile publicId])
      | (Inr vtId, w1) \<Rightarrow>
          (if vtId \<noteq> [] then
             (case poll_loop getAnalysis vtId ''pending'' 0 w1 of
                (verdict, w2, tr) \<Rightarrow>
                  (if verdict = ''pending'' then ''clean'' else verdict, w2,
                   ScanFile publicId # tr))
           else (''clean'', w1, [ScanFile publicId])))"

text \<open>
  Lines 38--104 of \<^verbatim>\<open>uploadHandler\<close>: everything that decides the verdict of an upload
  that passed the request checks, that is the filename blocklist followed by the
  scanning block. \<open>uploadHandler_resolve\<close> below shows that the handler is this function
  between its request checks and its storage step.
\<close>

definition resolve ::
  "(buffer \<Rightarrow> string \<Rightarrow> 'w \<Rightarrow> (js_error + string) \<times> 'w) \<Rightarrow>
   (string \<Rightarrow> 'w \<Rightarrow> (js_error + analysis) \<times> 'w) \<Rightarrow>
   upload_file \<Rightarrow> string \<Rightarrow> 'w \<Rightarrow> string \<times> 'w \<times> event list" where
  "resolve scanFile getAnalysis f publicId w =
     (if isKnownMalicious (originalname f) then (''malicious'', w, [])
      else scanVerdict scanFile getAnalysis f publicId w)"

text \<open>Lines 136--160: the message sent when the blob store rejects the upload.\<close>

definition cloudinary_error_message :: "cloudinary_error \<Rightarrow> string" where
  "cloudinary_error_message e =
     (let m1 = (case ce_message e of
                  None \<Rightarrow> ''Upload failed''
                | Some m \<Rightarrow> if m \<noteq> [] then m else ''Upload failed'');
          m2 = (case ce_error e of
                  None \<Rightarrow> m1
                | Some em \<Rightarrow> (case em of None \<Rightarrow> m1 | Some m \<Rightarrow> if m \<noteq> [] then m else m1))
      in (case ce_http_code e of
            None \<Rightarrow> m2
          | Some c \<Rightarrow>
              if c \<noteq> 0 \<and>
                 (case ce_message e of
                    None \<Rightarrow> False
                  | Some m \<Rightarrow> m \<noteq> [] \<and> str_includes m ''File size too large'')
              then ''File size exceeds Cloudinary limits. Please use a smaller file.''
              else m2))"

text \<open>
  \<^verbatim>\<open>uploadHandler(req, res)\<close>. \<open>mime_extension\<close> is \<^verbatim>\<open>mime.extension\<close> (\<open>None\<close> for its
  \<^verbatim>\<open>false\<close>), \<open>upload_stream\<close> the blob store's uploader and \<open>uuid\<close> the value that
  \<^verbatim>\<open>crypto.randomUUID()\<close> draws in this call. A request without a file makes
  \<^verbatim>\<open>file.mimetype\<close> throw, which the outermost \<^verbatim>\<open>catch\<close> answers with status 500.
\<close>

definition uploadHandler ::
  "(string \<Rightarrow> string option) \<Rightarrow>
   (buffer \<Rightarrow> string \<Rightarrow> 'w \<Rightarrow> (js_error + string) \<times> 'w) \<Rightarrow>
   (string \<Rightarrow> 'w \<Rightarrow> (js_error + analysis) \<times> 'w) \<Rightarrow>
   (upload_options \<Rightarrow> buffer \<Rightarrow> 'w \<Rightarrow> (cloudinary_error + uploaded) \<times> 'w) \<Rightarrow>
   string \<Rightarrow> request \<Rightarrow> 'w \<Rightarrow> response \<times> 'w \<times> event list" where
  "uploadHandler mime_extension scanFile getAnalysis upload_stream uuid req w =
     (case req_userId req of
        None \<Rightarrow> (ErrorJson 401 ''User authentication required'', w, [])
      | Some uid \<Rightarrow>
          if uid = [] then (ErrorJson 401 ''User authentication required'', w, [])
          else
            (case req_file req of
               None \<Rightarrow> (ErrorJson 500 ''Upload failed'', w, [])
             | Some f \<Rightarrow>
                 (let ext = (case mime_extension (mimetype f) of None \<Rightarrow> [] | Some e \<Rightarrow> e) in
                  if ext \<notin> set allowed then (ErrorJson 400 ''Blocked extension'', w, [])
                  else if file_size f > 25 * 1024 * 1024
                  then (ErrorJson 400 ''File too large'', w, [])
                  else
                    (let publicId = uuid @ ''.'' @ ext in
                     if isKnownMalicious (originalname f)
                     then (FileJson publicId (originalname f) None ''malicious'' uid, w, [])
                     else
                       (case scanVerdict scanFile getAnalysis f publicId w of
                          (verdict, w1, tr) \<Rightarrow>
                            if verdict = ''malicious''
                            then (FileJson publicId (originalname f) None ''malicious'' uid,
                                  w1, tr)
                            else
                              (case uploadToCloudinary upload_stream (buffer f) publicId
                                      verdict (originalname f) uid w1 of
                                 ((Inr up, w2), tr2) \<Rightarrow>
                                   (FileJson (public_id up) (originalname f)
                                      (Some (secure_url up)) verdict uid, w2, tr @ tr2)
                               | ((Inl cloudinaryError, w2), tr2) \<Rightarrow>
                                   (ErrorJson 400 (cloudinary_error_message cloudinaryError),
                                    w2, tr @ tr2)))))))"

text \<open>The request checks of lines 24--34, and the \<^verbatim>\<open>publicId\<close> of line 36.\<close>

definition accepted :: "(string \<Rightarrow> string option) \<Rightarrow> request \<Rightarrow> upload_file \<Rightarrow> string \<Rightarrow> bool" where
  "accepted mime_extension req f uid =
     (req_userId req = Some uid \<and> uid \<noteq> [] \<and> req_file req = Some f \<and>
      (case mime_extension (mimetype f) of None \<Rightarrow> [] | Some e \<Rightarrow> e) \<in> set allowed \<and>
      \<not> file_size f > 25 * 1024 * 1024)"

definition publicId_of :: "(string \<Rightarrow> string option) \<Rightarrow> string \<Rightarrow> upload_file \<Rightarrow> string" where
  "publicId_of mime_extension uuid f =
     uuid @ ''.'' @ (case mime_extension (mimetype f) of None \<Rightarrow> [] | Some e \<Rightarrow> e)"

subsection \<open>The listing controller\<close>

record custom_context =
  cust_verdict :: "string option"
  cust_originalName :: "string option"

record res_context =
  cx_verdict :: "string option"
  cx_originalName :: "string option"
  cx_custom :: "custom_context option"
  cx_userId :: "string option"

record resource =
  r_public_id :: string
  r_secure_url :: string
  r_context :: "res_context option"
  r_tags :: "string list option"

definition last_segment :: "string \<Rightarrow> string" where
  \<comment> \<open>\<^verbatim>\<open>s.split('/').pop()\<close>\<close>
  "last_segment s = rev (takeWhile (\<lambda>c. c \<noteq> CHR ''/'') (rev s))"

definition stored_verdict :: "resource \<Rightarrow> string" where
  \<comment> \<open>lines 219--234 of \<^verbatim>\<open>listAll\<close>: the verdict read from the context, else from the tags\<close>
  "stored_verdict r =
     (let v0 = (case r_context r of
                  None \<Rightarrow> ''unknown''
                | Some cx \<Rightarrow>
                    (case truthy (cx_verdict cx) of
                       Some v \<Rightarrow> toLowerCase v
                     | None \<Rightarrow>
                         (case cx_custom cx of
                            None \<Rightarrow> ''unknown''
                          | Some cu \<Rightarrow>
                              (case truthy (cust_verdict cu) of
                                 Some v \<Rightarrow> toLowerCase v
                               | None \<Rightarrow> ''unknown''))))
      in (case r_tags r of
            None \<Rightarrow> v0
          | Some tags \<Rightarrow>
              if length tags > 0 \<and> v0 = ''unknown''
              then (case find (\<lambda>tag. toLowerCase tag \<in>
                                 set [''malicious'', ''clean'', ''unknown'', ''pending'']) tags of
                      None \<Rightarrow> v0
                    | Some verdictTag \<Rightarrow> if verdictTag \<noteq> [] then toLowerCase verdictTag else v0)
              else v0))"

definition stored_originalName :: "resource \<Rightarrow> string" where
  \<comment> \<open>lines 216 and 238--246 of \<^verbatim>\<open>listAll\<close>\<close>
  "stored_originalName r =
     (case r_context r of
        None \<Rightarrow> last_segment (r_public_id r)
      | Some cx \<Rightarrow>
          (case truthy (cx_originalName cx) of
             Some n \<Rightarrow> n
           | None \<Rightarrow>
               (case cx_custom cx of
                  None \<Rightarrow> last_segment (r_public_id r)
                | Some cu \<Rightarrow>
                    (case truthy (cust_originalName cu) of
                       Some n \<Rightarrow> n
                     | None \<Rightarrow> last_segment (r_public_id r)))))"

definition listEntry :: "string \<Rightarrow> resource \<Rightarrow> response" where
  \<comment> \<open>the function mapped over \<^verbatim>\<open>out.resources\<close>, lines 214--262\<close>
  "listEntry uid r =
     (let originalName = stored_originalName r;
          verdict = (if isKnownMalicious originalName then ''malicious'' else stored_verdict r)
      in FileJson (r_public_id r) originalName
           (if verdict = ''malicious'' then None else Some (r_secure_url r)) verdict
           (case r_context r of
              None \<Rightarrow> uid
            | Some cx \<Rightarrow> (case truthy (cx_userId cx) of Some u \<Rightarrow> u | None \<Rightarrow> uid)))"

definition listAll ::
  "(string \<Rightarrow> 'w \<Rightarrow> (js_error + resource list) \<times> 'w) \<Rightarrow> request \<Rightarrow> 'w \<Rightarrow>
   ((nat \<times> string) + response list) \<times> 'w" where
  "listAll search req w =
     (case req_userId req of
        None \<Rightarrow> (Inl (401, ''User authentication required''), w)
      | Some uid \<Rightarrow>
          if uid = [] then (Inl (401, ''User authentication required''), w)
          else (case search (''resource_type:raw AND tags:'' @ uid) w of
                  (Inl err, w1) \<Rightarrow> (Inl (500, ''Failed to list files''), w1)
                | (Inr resources, w1) \<Rightarrow> (Inr (map (listEntry uid) resources), w1)))"

subsection \<open>The remote scanning service\<close>

text \<open>
  The three requests the scanner clients send, as functions on the state of the world:
  \<^verbatim>\<open>GET /files/{hash}\<close>, \<^verbatim>\<open>POST /files\<close> and \<^verbatim>\<open>GET /analyses/{id}\<close>. A request that ends
  in an HTTP error status or in no answer rejects with a \<open>js_error\<close>. The API key only
  travels in a header and is left out.
\<close>

record file_info =
  fi_id :: string
  last_analysis_stats :: "scan_stats option"
  last_analysis_id :: "string option"

record 'w remote =
  get_file :: "string \<Rightarrow> 'w \<Rightarrow> (js_error + file_info) \<times> 'w"
  post_file :: "buffer \<Rightarrow> string \<Rightarrow> 'w \<Rightarrow> (js_error + string) \<times> 'w"
  get_analysis :: "string \<Rightarrow> 'w \<Rightarrow> (js_error + analysis) \<times> 'w"

text \<open>The requests a client function sent, in order.\<close>

datatype request_sent = GetFile string | PostFile string

subsection \<open>The original scanner client (\<^verbatim>\<open>src/backend/utils/virusTotal.js\<close>)\<close>

text \<open>
  \<^verbatim>\<open>scanFile(buffer, filename, key)\<close>; \<open>sha256\<close> is the hex digest of \<^verbatim>\<open>crypto\<close>. Any error of
  the first lookup (404 or not) leads to the upload. An error of the upload reaches the
  outer \<^verbatim>\<open>catch\<close> (lines 36--84):
  \<^item> status 409: one more lookup; if it fails too, its error is thrown (line 54);
  \<^item> status 400: one more lookup; if it fails too, line 76 evaluates
    \<^verbatim>\<open>`file-${hash}`\<close>. No \<^verbatim>\<open>hash\<close> is in scope there: the three \<^verbatim>\<open>const hash\<close> of the function
    are local to the \<^verbatim>\<open>try\<close> blocks of lines 6, 44 and 62, and line 76 is in the \<^verbatim>\<open>catch\<close>
    block of the last. Reading the undeclared name throws a \<^verbatim>\<open>ReferenceError\<close>, which leaves
    \<^verbatim>\<open>scanFile\<close> since it is thrown inside the outer \<^verbatim>\<open>catch\<close>;
  \<^item> anything else is thrown again (line 83).
\<close>

definition scanFile_orig ::
  "(buffer \<Rightarrow> string) \<Rightarrow> 'w remote \<Rightarrow> buffer \<Rightarrow> string \<Rightarrow> 'w \<Rightarrow>
   (js_error + string) \<times> 'w \<times> request_sent list" where
  "scanFile_orig sha256 remote buf filename w =
     (let hash = sha256 buf in
      case get_file remote hash w of
        (Inr info, w1) \<Rightarrow> (Inr (fi_id info), w1, [GetFile hash])
      | (Inl hashError, w1) \<Rightarrow>
          (case post_file remote buf filename w1 of
             (Inr new_id, w2) \<Rightarrow> (Inr new_id, w2, [GetFile hash, PostFile filename])
           | (Inl error, w2) \<Rightarrow>
               (case response error of
                  None \<Rightarrow> (Inl error, w2, [GetFile hash, PostFile filename])
                | Some resp \<Rightarrow>
                    if resp_status resp = 409 then
                      (case get_file remote hash w2 of
                         (Inr info, w3) \<Rightarrow>
                           (Inr (fi_id info), w3, [GetFile hash, PostFile filename, GetFile hash])
                       | (Inl hashError2, w3) \<Rightarrow>
                           (Inl hashError2, w3, [GetFile hash, PostFile filename, GetFile hash]))
                    else if resp_status resp = 400 then
                      (case get_file remote hash w2 of
                         (Inr info, w3) \<Rightarrow>
                           (Inr (fi_id info), w3, [GetFile hash, PostFile filename, GetFile hash])
                       | (Inl hashError2, w3) \<Rightarrow>
                           (Inl (Error ''hash is not defined''), w3,
                            [GetFile hash, PostFile filename, GetFile hash]))
                    else (Inl error, w2, [GetFile hash, PostFile filename]))))"

text \<open>
  The object literal that \<^verbatim>\<open>getAnalysis\<close> returns at lines 103, 117, 138, 156 and 171.
\<close>

definition clean_result :: analysis where
  "clean_result =
     \<lparr> status = ''completed'',
       stats = Some \<lparr> malicious = 0, suspicious = 0, harmless = 1 \<rparr> \<rparr>"

text \<open>
  \<^verbatim>\<open>getAnalysis(id, key)\<close>. \<^verbatim>\<open>id.replace('file-', '')\<close> removes the first occurrence, which
  is the prefix just tested. On the normal path the remote object is returned as it is
  unless its status is \<^verbatim>\<open>queued\<close> or \<^verbatim>\<open>pending\<close>. The outermost \<^verbatim>\<open>catch\<close> (line 167) has
  nothing left to catch once \<open>id\<close> is a string.
\<close>

definition getAnalysis_orig ::
  "'w remote \<Rightarrow> string \<Rightarrow> 'w \<Rightarrow> (js_error + analysis) \<times> 'w" where
  "getAnalysis_orig remote ident w =
     (if startsWith ident ''file-'' then
        (let hash = drop (length ''file-'') ident in
         case get_file remote hash w of
           (Inr data, w1) \<Rightarrow> (Inr clean_result, w1)
         | (Inl error, w1) \<Rightarrow> (Inr clean_result, w1))
      else
        (case get_analysis remote ident w of
           (Inr data, w1) \<Rightarrow>
             if status data = ''queued'' \<or> status data = ''pending''
             then (Inr clean_result, w1)
             else (Inr data, w1)
         | (Inl error, w1) \<Rightarrow> (Inr clean_result, w1)))"

subsection \<open>The revised scanner client (\<^verbatim>\<open>src/unnamed/part_001\<close>)\<close>

definition POLLING_INTERVAL_MS :: nat where
  "POLLING_INTERVAL_MS = 8000"

definition MAX_RETRIES :: nat where
  "MAX_RETRIES = 3"

definition isFileHash :: "string \<Rightarrow> bool" where
  \<comment> \<open>\<^verbatim>\<open>/^[a-fA-F0-9]{64}$/.test(id)\<close>\<close>
  "isFileHash ident =
     (length ident = 64 \<and> list_all (\<lambda>c. c \<in> set ''0123456789abcdefABCDEF'') ident)"

definition rate_limit_or :: "js_error \<Rightarrow> js_error" where
  \<comment> \<open>lines 137--149 and 173--176: an answer with status 429 becomes \<^verbatim>\<open>RATE_LIMIT_EXCEEDED\<close>\<close>
  "rate_limit_or err =
     (case response err of
        None \<Rightarrow> err
      | Some resp \<Rightarrow> if resp_status resp = 429 then Error ''RATE_LIMIT_EXCEEDED'' else err)"

text \<open>
  \<^verbatim>\<open>getAnalysis(id, key)\<close>. The \<^verbatim>\<open>Error('ANALYSIS_PENDING')\<close> thrown inside a \<^verbatim>\<open>try\<close> passes
  through the \<^verbatim>\<open>catch\<close> blocks unchanged (it has no \<^verbatim>\<open>response\<close>), and the outermost
  \<^verbatim>\<open>catch\<close> throws every error again.
\<close>

definition getAnalysis_rev ::
  "'w remote \<Rightarrow> string \<Rightarrow> 'w \<Rightarrow> (js_error + analysis) \<times> 'w" where
  "getAnalysis_rev remote ident w =
     (if isFileHash ident then
        (case get_file remote ident w of
           (Inr info, w1) \<Rightarrow>
             (case last_analysis_stats info of
                Some st \<Rightarrow> (Inr \<lparr> status = ''completed'', stats = Some st \<rparr>, w1)
              | None \<Rightarrow>
                  (case truthy (last_analysis_id info) of
                     Some analysisId \<Rightarrow>
                       (case get_analysis remote analysisId w1 of
                          (Inr a, w2) \<Rightarrow> (Inr \<lparr> status = ''completed'', stats = stats a \<rparr>, w2)
                        | (Inl fileError, w2) \<Rightarrow> (Inl (rate_limit_or fileError), w2))
                   | None \<Rightarrow> (Inl (Error ''ANALYSIS_PENDING''), w1)))
         | (Inl fileError, w1) \<Rightarrow> (Inl (rate_limit_or fileError), w1))
      else
        (case get_analysis remote ident w of
           (Inr a, w1) \<Rightarrow>
             if status a = ''completed''
             then (Inr \<lparr> status = ''completed'', stats = stats a \<rparr>, w1)
             else (Inl (Error ''ANALYSIS_PENDING''), w1)
         | (Inl analysisError, w1) \<Rightarrow>
             (case response analysisError of
                None \<Rightarrow> (Inl analysisError, w1)
              | Some resp \<Rightarrow>
                  if resp_status resp = 429 then (Inl (Error ''RATE_LIMIT_EXCEEDED''), w1)
                  else if resp_status resp = 400 \<and>
                          resp_error_code resp = Some ''NotAvailableYet''
                  then (Inl (Error ''ANALYSIS_PENDING''), w1)
                  else (Inl analysisError, w1))))"

text \<open>
  The \<^verbatim>\<open>while (retries < maxRetries)\<close> loop of \<^verbatim>\<open>waitForAnalysis\<close>, from the loop state
  \<open>retries\<close>, over any \<^verbatim>\<open>getAnalysis\<close>; \<open>max_retries\<close> is its parameter \<^verbatim>\<open>maxRetries\<close>. One
  iteration waits first when it is not the first, then polls.
\<close>

function waitForAnalysis_loop ::
  "(string \<Rightarrow> 'w \<Rightarrow> (js_error + analysis) \<times> 'w) \<Rightarrow> string \<Rightarrow> nat \<Rightarrow> nat \<Rightarrow> 'w \<Rightarrow>
   (js_error + analysis) \<times> 'w \<times> event list" where
  "waitForAnalysis_loop getAnalysis ident max_retries retries w =
     (if retries < max_retries then
        (let waited = (if retries > 0 then [Timeout POLLING_INTERVAL_MS] else []) in
         case getAnalysis ident w of
           (Inr result, w1) \<Rightarrow>
             if status result = ''completed''
             then (Inr result, w1, waited @ [GetAnalysis ident (Inr result)])
             else (case waitForAnalysis_loop getAnalysis ident max_retries (retries + 1) w1 of
                     (res, w', tr) \<Rightarrow>
                       (res, w', waited @ GetAnalysis ident (Inr result) # tr))
         | (Inl error, w1) \<Rightarrow>
             if message error = ''RATE_LIMIT_EXCEEDED''
             then (case waitForAnalysis_loop getAnalysis ident max_retries (retries + 1) w1 of
                     (res, w', tr) \<Rightarrow>
                       (res, w', waited @ GetAnalysis ident (Inl error) #
                                   Timeout (POLLING_INTERVAL_MS * 2) # tr))
             else (Inl error, w1, waited @ [GetAnalysis ident (Inl error)]))
      else (Inl (Error ''ANALYSIS_TIMEOUT''), w, []))"
  by pat_completeness auto
termination
  by (relation "measure (\<lambda>(g, ident, max_retries, retries, w). max_retries - retries)") auto

definition waitForAnalysis ::
  "'w remote \<Rightarrow> string \<Rightarrow> nat \<Rightarrow> 'w \<Rightarrow> (js_error + analysis) \<times> 'w \<times> event list" where
  \<comment> \<open>\<^verbatim>\<open>waitForAnalysis(id, key, maxRetries)\<close>; the parameter defaults to \<open>MAX_RETRIES\<close>\<close>
  "waitForAnalysis remote ident max_retries w =
     waitForAnalysis_loop (getAnalysis_rev remote) ident max_retries 0 w"

subsection \<open>Observing a run\<close>

fun is_poll :: "event \<Rightarrow> bool" where
  "is_poll (GetAnalysis i r) = True"
| "is_poll e = False"


fun is_upload :: "event \<Rightarrow> bool" where
  "is_upload (UploadStream opts) = True"
| "is_upload e = False"

fun wait_of :: "event \<Rightarrow> nat" where
  "wait_of (Timeout ms) = ms"
| "wait_of e = 0"

text \<open>
  A scripted remote service for concrete runs: the world is the three lists of answers
  still to come, one per request kind; a request takes the next answer of its kind and
  fails as a network error when none is left.
\<close>

type_synonym script =
  "(js_error + file_info) list \<times> (js_error + string) list \<times> (js_error + analysis) list"

definition scripted :: "script remote" where
  "scripted =
     \<lparr> get_file = (\<lambda>h (fs, ps, as).
         case fs of [] \<Rightarrow> (Inl (Error ''Network Error''), (fs, ps, as))
                  | x # fs' \<Rightarrow> (x, (fs', ps, as))),
       post_file = (\<lambda>b n (fs, ps, as).
         case ps of [] \<Rightarrow> (Inl (Error ''Network Error''), (fs, ps, as))
                  | x # ps' \<Rightarrow> (x, (fs, ps', as))),
       get_analysis = (\<lambda>i (fs, ps, as).
         case as of [] \<Rightarrow> (Inl (Error ''Network Error''), (fs, ps, as))
                  | x # as' \<Rightarrow> (x, (fs, ps, as'))) \<rparr>"

definition http_error :: "nat \<Rightarrow> js_error" where
  \<comment> \<open>the rejection of a request answered with an error status\<close>
  "http_error code =
     JsError ''Request failed'' (Some \<lparr> resp_status = code, resp_error_code = None \<rparr>)"

text \<open>A scripted \<^verbatim>\<open>getAnalysis\<close>: the world is the list of results still to come.\<close>

definition answers :: "string \<Rightarrow> (js_error + analysis) list \<Rightarrow> (js_error + analysis) \<times> (js_error + analysis) list" where
  "answers ident as =
     (case as of [] \<Rightarrow> (Inl (Error ''Network Error''), []) | x # as' \<Rightarrow> (x, as'))"

text \<open>
  Stand-ins for the collaborators of the controller, as its tests mock them: a
  \<^verbatim>\<open>scanFile\<close> that resolves to a fixed handle or rejects, a blob store that accepts every
  upload, and the two rows of the \<^verbatim>\<open>mime.extension\<close> table that the tests use.
\<close>

definition scanFile_resolves :: "string \<Rightarrow> buffer \<Rightarrow> string \<Rightarrow> 'w \<Rightarrow> (js_error + string) \<times> 'w" where
  "scanFile_resolves vtId buf name w = (Inr vtId, w)"

definition scanFile_rejects :: "js_error \<Rightarrow> buffer \<Rightarrow> string \<Rightarrow> 'w \<Rightarrow> (js_error + string) \<times> 'w" where
  "scanFile_rejects err buf name w = (Inl err, w)"

definition getAnalysis_rejects :: "js_error \<Rightarrow> string \<Rightarrow> 'w \<Rightarrow> (js_error + analysis) \<times> 'w" where
  "getAnalysis_rejects err ident w = (Inl err, w)"

definition upload_accepts ::
  "upload_options \<Rightarrow> buffer \<Rightarrow> 'w \<Rightarrow> (cloudinary_error + uploaded) \<times> 'w" where
  "upload_accepts opts buf w =
     (Inr \<lparr> public_id = opt_public_id opts, secure_url = ''https://example.com/test-id'' \<rparr>, w)"

definition mime_table :: "string \<Rightarrow> string option" where
  "mime_table = map_of [(''application/pdf'', ''pdf''), (''text/plain'', ''txt'')]"

definition queued :: analysis where
  "queued = \<lparr> status = ''queued'',
               stats = Some \<lparr> malicious = 0, suspicious = 0, harmless = 0 \<rparr> \<rparr>"

definition completed :: "int \<Rightarrow> analysis" where
  "completed m = \<lparr> status = ''completed'',
                    stats = Some \<lparr> malicious = m, suspicious = 0, harmless = 0 \<rparr> \<rparr>"

definition test_file :: "string \<Rightarrow> string \<Rightarrow> upload_file" where
  "test_file name mime =
     \<lparr> buffer = [116, 101, 115, 116], mimetype = mime, originalname = name, file_size = 1024 \<rparr>"

definition test_request :: "upload_file \<Rightarrow> request" where
  "test_request f = \<lparr> req_userId = Some ''user123'', req_file = Some f \<rparr>"

section \<open>Properties\<close>

declare poll_loop.simps [simp del]
declare waitForAnalysis_loop.simps [simp del]

subsection \<open>Substring search\<close>

lemma str_includes_iff: "str_includes s p \<longleftrightarrow> (\<exists>pre post. s = pre @ p @ post)"
proof (induction s)
  case Nil
  then show ?case by auto
next
  case (Cons c cs)
  show ?case
  proof
    assume "str_includes (c # cs) p"
    then consider "startsWith (c # cs) p" | "str_includes cs p" by auto
    then show "\<exists>pre post. c # cs = pre @ p @ post"
    proof cases
      case 1
      then have "c # cs = [] @ p @ drop (length p) (c # cs)"
        unfolding startsWith_def by (metis append_Nil append_take_drop_id)
      then show ?thesis by blast
    next
      case 2
      then obtain pre post where "cs = pre @ p @ post" using Cons.IH by auto
      then have "c # cs = (c # pre) @ p @ post" by simp
      then show ?thesis by blast
    qed
  next
    assume "\<exists>pre post. c # cs = pre @ p @ post"
    then obtain pre post where eq: "c # cs = pre @ p @ post" by auto
    show "str_includes (c # cs) p"
    proof (cases pre)
      case Nil
      then have "startsWith (c # cs) p" using eq by (simp add: startsWith_def)
      then show ?thesis by simp
    next
      case (Cons a pre')
      then have "cs = pre' @ p @ post" using eq by simp
      then show ?thesis using Cons.IH by auto
    qed
  qed
qed


subsection \<open>The polling loop of the controller\<close>

lemma poll_loop_stop:
  "\<not> (v = ''pending'' \<and> rc < maxRetries) \<Longrightarrow> poll_loop g i v rc w = (v, w, [])"
  by (subst poll_loop.simps) auto

lemma poll_loop_settled:
  "rc < maxRetries \<Longrightarrow> g i w = (r, w1) \<Longrightarrow> try_verdict r = Inr x \<Longrightarrow> x \<noteq> ''pending'' \<Longrightarrow>
   poll_loop g i ''pending'' rc w = (x, w1, [GetAnalysis i r])"
  by (subst poll_loop.simps) (simp add: poll_loop_stop)

lemma poll_loop_pending:
  "rc < maxRetries \<Longrightarrow> g i w = (r, w1) \<Longrightarrow> try_verdict r = Inr ''pending'' \<Longrightarrow>
   poll_loop g i ''pending'' (rc + 1) w1 = (v', w', tr) \<Longrightarrow>
   poll_loop g i ''pending'' rc w = (v', w', GetAnalysis i r # Timeout 5000 # tr)"
  by (subst poll_loop.simps) simp

lemma poll_loop_error_last:
  "rc < maxRetries \<Longrightarrow> g i w = (r, w1) \<Longrightarrow> try_verdict r = Inl e \<Longrightarrow> rc \<ge> maxRetries - 1 \<Longrightarrow>
   poll_loop g i ''pending'' rc w = (''clean'', w1, [GetAnalysis i r])"
  by (subst poll_loop.simps) simp

lemma poll_loop_error_retry:
  "rc < maxRetries \<Longrightarrow> g i w = (r, w1) \<Longrightarrow> try_verdict r = Inl e \<Longrightarrow> \<not> rc \<ge> maxRetries - 1 \<Longrightarrow>
   poll_loop g i ''pending'' (rc + 1) w1 = (v', w', tr) \<Longrightarrow>
   poll_loop g i ''pending'' rc w = (v', w', GetAnalysis i r # Timeout 5000 # tr)"
  by (subst poll_loop.simps) simp

lemma poll_loop_rule [case_names stop settled pending error_last error_retry]:
  assumes stop: "\<And>v rc w. \<not> (v = ''pending'' \<and> rc < maxRetries) \<Longrightarrow> P v rc w (v, w, [])"
    and settled: "\<And>rc w r w1 x. rc < maxRetries \<Longrightarrow> g i w = (r, w1) \<Longrightarrow> try_verdict r = Inr x \<Longrightarrow>
          x \<noteq> ''pending'' \<Longrightarrow> P ''pending'' rc w (x, w1, [GetAnalysis i r])"
    and pending: "\<And>rc w r w1 v' w' tr. rc < maxRetries \<Longrightarrow> g i w = (r, w1) \<Longrightarrow>
          try_verdict r = Inr ''pending'' \<Longrightarrow>
          poll_loop g i ''pending'' (rc + 1) w1 = (v', w', tr) \<Longrightarrow>
          P ''pending'' (rc + 1) w1 (v', w', tr) \<Longrightarrow>
          P ''pending'' rc w (v', w', GetAnalysis i r # Timeout 5000 # tr)"
    and error_last: "\<And>rc w r w1 e. rc < maxRetries \<Longrightarrow> g i w = (r, w1) \<Longrightarrow>
          try_verdict r = Inl e \<Longrightarrow> rc \<ge> maxRetries - 1 \<Longrightarrow>
          P ''pending'' rc w (''clean'', w1, [GetAnalysis i r])"
    and error_retry: "\<And>rc w r w1 e v' w' tr. rc < maxRetries \<Longrightarrow> g i w = (r, w1) \<Longrightarrow>
          try_verdict r = Inl e \<Longrightarrow> \<not> rc \<ge> maxRetries - 1 \<Longrightarrow>
          poll_loop g i ''pending'' (rc + 1) w1 = (v', w', tr) \<Longrightarrow>
          P ''pending'' (rc + 1) w1 (v', w', tr) \<Longrightarrow>
          P ''pending'' rc w (v', w', GetAnalysis i r # Timeout 5000 # tr)"
  shows "P v rc w (poll_loop g i v rc w)"
proof -
  have next_step: "P ''pending'' (rc + 1) w (poll_loop g i ''pending'' (rc + 1) w)"
    if "\<And>rc' w'. maxRetries - rc' < maxRetries - rc \<Longrightarrow> rc' < maxRetries \<Longrightarrow>
          P ''pending'' rc' w' (poll_loop g i ''pending'' rc' w')"
      and "rc < maxRetries" for rc w
  proof (cases "rc + 1 < maxRetries")
    case True
    then show ?thesis using that by simp
  next
    case False
    then show ?thesis using stop [of "''pending''" "rc + 1" w] by (simp add: poll_loop_stop)
  qed
  have running: "P ''pending'' rc w (poll_loop g i ''pending'' rc w)" if "rc < maxRetries" for rc w
    using that
  proof (induction "maxRetries - rc" arbitrary: rc w rule: less_induct)
    case less
    obtain r w1 where g: "g i w = (r, w1)" by (cases "g i w")
    obtain v' w' tr where nxt: "poll_loop g i ''pending'' (rc + 1) w1 = (v', w', tr)"
      by (cases "poll_loop g i ''pending'' (rc + 1) w1")
    have P_nxt: "P ''pending'' (rc + 1) w1 (v', w', tr)"
      using next_step [of rc w1] less nxt by simp
    show ?case
    proof (cases "try_verdict r")
      case (Inr x)
      show ?thesis
      proof (cases "x = ''pending''")
        case True
        then show ?thesis
          using pending [OF less.prems g _ nxt P_nxt] poll_loop_pending [where g = g and i = i and w = w, OF less.prems g _ nxt] Inr
          by simp
      next
        case False
        then show ?thesis
          using settled [OF less.prems g Inr] poll_loop_settled [where g = g and i = i and w = w, OF less.prems g Inr] by simp
      qed
    next
      case (Inl e)
      show ?thesis
      proof (cases "rc \<ge> maxRetries - 1")
        case True
        then show ?thesis
          using error_last [OF less.prems g Inl] poll_loop_error_last [where g = g and i = i and w = w, OF less.prems g Inl] by simp
      next
        case False
        then show ?thesis
          using error_retry [OF less.prems g Inl False nxt P_nxt]
            poll_loop_error_retry [where g = g and i = i and w = w, OF less.prems g Inl False nxt] by simp
      qed
    qed
  qed
  show ?thesis
  proof (cases "v = ''pending'' \<and> rc < maxRetries")
    case True
    then show ?thesis using running by simp
  next
    case False
    then show ?thesis using stop [of v rc w] by (simp add: poll_loop_stop)
  qed
qed


lemma poll_loop_polls:
  "length (filter is_poll (snd (snd (poll_loop g i v rc w)))) \<le> maxRetries - rc"
  by (rule poll_loop_rule
        [where P = "\<lambda>v rc w res. length (filter is_poll (snd (snd res))) \<le> maxRetries - rc"])
     auto

lemma poll_loop_waits:
  "sum_list (map wait_of (snd (snd (poll_loop g i v rc w)))) \<le> 5000 * (maxRetries - rc)"
  by (rule poll_loop_rule
        [where P = "\<lambda>v rc w res. sum_list (map wait_of (snd (snd res))) \<le> 5000 * (maxRetries - rc)"])
     auto

lemma poll_loop_events:
  "e \<in> set (snd (snd (poll_loop g i v rc w))) \<Longrightarrow> is_poll e \<or> e = Timeout 5000"
proof -
  have "\<forall>e \<in> set (snd (snd (poll_loop g i v rc w))). is_poll e \<or> e = Timeout 5000"
    by (rule poll_loop_rule
          [where P = "\<lambda>v rc w res. \<forall>e \<in> set (snd (snd res)). is_poll e \<or> e = Timeout 5000"])
       auto
  then show "e \<in> set (snd (snd (poll_loop g i v rc w))) \<Longrightarrow> is_poll e \<or> e = Timeout 5000"
    by blast
qed

lemma poll_loop_verdict:
  "fst (poll_loop g i ''pending'' rc w) \<in> {''pending'', ''clean'', ''malicious''}"
proof -
  have "v = ''pending'' \<longrightarrow> fst (poll_loop g i v rc w) \<in> {''pending'', ''clean'', ''malicious''}" for v
    by (rule poll_loop_rule
          [where P = "\<lambda>v rc w res. v = ''pending'' \<longrightarrow> fst res \<in> {''pending'', ''clean'', ''malicious''}"])
       (auto simp: try_verdict_def verdict_of_def split: sum.splits if_splits option.splits)
  then show ?thesis by simp
qed

lemma try_verdict_completed:
  "status a = ''completed'' \<Longrightarrow> stats a = Some s \<Longrightarrow>
   try_verdict (Inr a) = Inr (if malicious s > 0 then ''malicious'' else ''clean'')"
  by (simp add: try_verdict_def verdict_of_def)

lemma poll_loop_completed:
  assumes "GetAnalysis j (Inr a) \<in> set (snd (snd (poll_loop g i v rc w)))"
    and "status a = ''completed''" and "stats a = Some s"
  shows "fst (poll_loop g i v rc w) = (if malicious s > 0 then ''malicious'' else ''clean'')"
proof -
  have "GetAnalysis j (Inr a) \<in> set (snd (snd (poll_loop g i v rc w))) \<longrightarrow>
        fst (poll_loop g i v rc w) = (if malicious s > 0 then ''malicious'' else ''clean'')"
    by (rule poll_loop_rule
          [where P = "\<lambda>v rc w res. GetAnalysis j (Inr a) \<in> set (snd (snd res)) \<longrightarrow>
                        fst res = (if malicious s > 0 then ''malicious'' else ''clean'')"])
       (use assms(2,3) in \<open>auto simp: try_verdict_completed\<close>)
  then show ?thesis using assms(1) by simp
qed



subsection \<open>The scanning block and the handler\<close>

lemma scanVerdict_verdict:
  "fst (scanVerdict sf ga f pid w) \<in> {''clean'', ''malicious''}"
proof (cases "sf (buffer f) pid w")
  case (Pair r w1)
  show ?thesis
  proof (cases r)
    case (Inl e)
    then show ?thesis using Pair by (simp add: scanVerdict_def)
  next
    case (Inr vtId)
    show ?thesis
    proof (cases "vtId = []")
      case True
      then show ?thesis using Pair Inr by (simp add: scanVerdict_def)
    next
      case False
      then show ?thesis
        using Pair Inr poll_loop_verdict [of ga vtId 0 w1]
        by (auto simp: scanVerdict_def split: prod.splits)
    qed
  qed
qed

lemma scanVerdict_trace:
  "\<exists>tr. snd (snd (scanVerdict sf ga f pid w)) = ScanFile pid # tr \<and>
        length (filter is_poll tr) \<le> maxRetries \<and>
        sum_list (map wait_of tr) \<le> 5000 * maxRetries \<and>
        (\<forall>e \<in> set tr. is_poll e \<or> e = Timeout 5000)"
proof (cases "sf (buffer f) pid w")
  case (Pair r w1)
  show ?thesis
  proof (cases r)
    case (Inl e)
    then show ?thesis using Pair by (simp add: scanVerdict_def)
  next
    case (Inr vtId)
    show ?thesis
    proof (cases "vtId = []")
      case True
      then show ?thesis using Pair Inr by (simp add: scanVerdict_def)
    next
      case False
      then show ?thesis
        using Pair Inr poll_loop_polls [of ga vtId "''pending''" 0 w1]
          poll_loop_waits [of ga vtId "''pending''" 0 w1]
          poll_loop_events [of _ ga vtId "''pending''" 0 w1]
        by (auto simp: scanVerdict_def split: prod.splits)
    qed
  qed
qed

lemma scanVerdict_completed:
  assumes "GetAnalysis j (Inr a) \<in> set (snd (snd (scanVerdict sf ga f pid w)))"
    and "status a = ''completed''" and "stats a = Some s"
  shows "fst (scanVerdict sf ga f pid w) = (if malicious s > 0 then ''malicious'' else ''clean'')"
proof (cases "sf (buffer f) pid w")
  case (Pair r w1)
  show ?thesis
  proof (cases r)
    case (Inl e)
    then show ?thesis using Pair assms(1) by (simp add: scanVerdict_def)
  next
    case (Inr vtId)
    show ?thesis
    proof (cases "vtId = []")
      case True
      then show ?thesis using Pair Inr assms(1) by (simp add: scanVerdict_def)
    next
      case False
      obtain v w2 tr where pl: "poll_loop ga vtId ''pending'' 0 w1 = (v, w2, tr)"
        by (cases "poll_loop ga vtId ''pending'' 0 w1")
      have "GetAnalysis j (Inr a) \<in> set tr"
        using assms(1) Pair Inr False pl by (simp add: scanVerdict_def)
      then have "v = (if malicious s > 0 then ''malicious'' else ''clean'')"
        using poll_loop_completed [of j a ga vtId "''pending''" 0 w1 s] assms(2,3) pl by simp
      then show ?thesis using Pair Inr False pl by (simp add: scanVerdict_def)
    qed
  qed
qed



lemma uploadHandler_resolve:
  assumes "accepted me req f uid"
  shows "uploadHandler me sf ga us uuid req w =
     (case resolve sf ga f (publicId_of me uuid f) w of
        (verdict, w1, tr) \<Rightarrow>
          if verdict = ''malicious''
          then (FileJson (publicId_of me uuid f) (originalname f) None ''malicious'' uid, w1, tr)
          else
            (case uploadToCloudinary us (buffer f) (publicId_of me uuid f) verdict
                    (originalname f) uid w1 of
               ((Inr up, w2), tr2) \<Rightarrow>
                 (FileJson (public_id up) (originalname f) (Some (secure_url up)) verdict uid,
                  w2, tr @ tr2)
             | ((Inl cloudinaryError, w2), tr2) \<Rightarrow>
                 (ErrorJson 400 (cloudinary_error_message cloudinaryError), w2, tr @ tr2)))"
  using assms
  unfolding accepted_def uploadHandler_def resolve_def publicId_of_def Let_def
  by simp

lemma isKnownMalicious_iff:
  "isKnownMalicious name \<longleftrightarrow> (\<exists>pre post. toLowerCase name = pre @ ''eicar'' @ post)"
proof
  assume "isKnownMalicious name"
  then obtain m where m: "m \<in> set knownMaliciousNames" "str_includes (toLowerCase name) m"
    by (auto simp: isKnownMalicious_def list_ex_iff)
  then obtain pre post where eq: "toLowerCase name = pre @ m @ post"
    using str_includes_iff by blast
  from m(1) obtain rest where "m = ''eicar'' @ rest"
    by (auto simp: knownMaliciousNames_def)
  then have "toLowerCase name = pre @ ''eicar'' @ (rest @ post)" using eq by simp
  then show "\<exists>pre post. toLowerCase name = pre @ ''eicar'' @ post" by blast
next
  assume "\<exists>pre post. toLowerCase name = pre @ ''eicar'' @ post"
  then have "str_includes (toLowerCase name) ''eicar''" using str_includes_iff by blast
  then show "isKnownMalicious name"
    by (simp add: isKnownMalicious_def knownMaliciousNames_def)
qed


lemma resolve_verdict:
  "fst (resolve sf ga f pid w) \<in> {''clean'', ''malicious''}"
  using scanVerdict_verdict [of sf ga f pid w] by (simp add: resolve_def)

lemma resolve_no_upload:
  "filter is_upload (snd (snd (resolve sf ga f pid w))) = []"
proof (cases "isKnownMalicious (originalname f)")
  case True
  then show ?thesis by (simp add: resolve_def)
next
  case False
  obtain tr where tr: "snd (snd (scanVerdict sf ga f pid w)) = ScanFile pid # tr"
    "\<forall>e \<in> set tr. is_poll e \<or> e = Timeout 5000"
    using scanVerdict_trace [of sf ga f pid w] by blast
  have "\<not> is_upload e" if "e \<in> set tr" for e
    using tr(2) that by (cases e) auto
  then have "filter is_upload tr = []" by (simp add: filter_empty_conv)
  then show ?thesis using False tr(1) by (simp add: resolve_def)
qed

lemma uploadHandler_rejected:
  "\<not> (\<exists>f uid. accepted me req f uid) \<Longrightarrow> snd (snd (uploadHandler me sf ga us uuid req w)) = []"
  unfolding accepted_def uploadHandler_def Let_def
  by (auto split: option.splits)

text \<open>
  C2. When the lower-cased filename of an upload contains one of the fixed markers, the
  verdict is \<^verbatim>\<open>malicious\<close> at once: the verdict logic performs no effect at all, the handler
  calls neither \<^verbatim>\<open>scanFile\<close> nor \<^verbatim>\<open>getAnalysis\<close> (its whole trace is empty) whatever the rest
  of the request is, and for a request that passes the request checks it answers
  \<^verbatim>\<open>{verdict: 'malicious', url: null}\<close> with the world untouched.
\<close>

theorem blocklist_returns_malicious_without_calls:
  assumes "isKnownMalicious (originalname f)"
  shows "resolve sf ga f pid w = (''malicious'', w, []) \<and>
         (req_file req = Some f \<longrightarrow>
            snd (snd (uploadHandler me sf ga us uuid req w)) = []) \<and>
         (accepted me req f uid \<longrightarrow>
            uploadHandler me sf ga us uuid req w =
              (FileJson (publicId_of me uuid f) (originalname f) None ''malicious'' uid, w, []))"
proof -
  have r: "resolve sf ga f pid w = (''malicious'', w, [])" for pid
    using assms by (simp add: resolve_def)
  have a: "uploadHandler me sf ga us uuid req w =
      (FileJson (publicId_of me uuid f) (originalname f) None ''malicious'' u, w, [])"
    if "accepted me req f u" for u
    using uploadHandler_resolve [OF that, of sf ga us uuid w] r by simp
  have t: "snd (snd (uploadHandler me sf ga us uuid req w)) = []" if "req_file req = Some f"
  proof (cases "\<exists>uid. accepted me req f uid")
    case True
    then show ?thesis using a by auto
  next
    case False
    then have "\<not> (\<exists>f' uid. accepted me req f' uid)"
      using that by (auto simp: accepted_def)
    then show ?thesis by (rule uploadHandler_rejected)
  qed
  show ?thesis using r a t by blast
qed

theorem blocklist_returns_malicious_without_calls_witness:
  "isKnownMalicious ''eicar.com.txt'' \<and>
   uploadHandler mime_table (scanFile_resolves ''scan-id-123'') answers upload_accepts ''uuid''
     (test_request (test_file ''eicar.com.txt'' ''text/plain'')) [Inr (completed 0)] =
   (FileJson ''uuid.txt'' ''eicar.com.txt'' None ''malicious'' ''user123'',
    [Inr (completed 0)], [])"
proof -
  have m: "isKnownMalicious (originalname (test_file ''eicar.com.txt'' ''text/plain''))"
    by code_simp
  have acc: "accepted mime_table (test_request (test_file ''eicar.com.txt'' ''text/plain''))
               (test_file ''eicar.com.txt'' ''text/plain'') ''user123''"
    by (simp add: accepted_def test_request_def test_file_def mime_table_def allowed_def)
  show ?thesis
    using m acc
      blocklist_returns_malicious_without_calls [OF m,
        of "scanFile_resolves ''scan-id-123''" answers "''uuid.txt''" "[Inr (completed 0)]"
           "test_request (test_file ''eicar.com.txt'' ''text/plain'')" mime_table upload_accepts
           "''uuid''" "''user123''"]
    by (simp add: publicId_of_def test_file_def mime_table_def)
qed

text \<open>
  C10. The blocklist is a substring test: the filename is blocked exactly when its
  lower-cased form contains \<^verbatim>\<open>eicar\<close> somewhere. For every such name, however unrelated
  the file, the upload is answered \<^verbatim>\<open>malicious\<close> without scanning, and \<^verbatim>\<open>listAll\<close>, called by
  an authenticated user whose search succeeds, answers with one entry per resource found
  and reports every resource stored under such a name as \<^verbatim>\<open>malicious\<close> without a URL,
  whatever verdict was stored.
\<close>

theorem eicar_substring_is_blocked:
  assumes "toLowerCase name = pre @ ''eicar'' @ post"
  shows "isKnownMalicious name \<and>
         (originalname f = name \<longrightarrow> resolve sf ga f pid w = (''malicious'', w, [])) \<and>
         (originalname f = name \<and> accepted me req f uid \<longrightarrow>
            uploadHandler me sf ga us uuid req w =
              (FileJson (publicId_of me uuid f) name None ''malicious'' uid, w, [])) \<and>
         (stored_originalName r = name \<longrightarrow>
            (\<exists>owner. listEntry uid r = FileJson (r_public_id r) name None ''malicious'' owner)) \<and>
         (req_userId lreq = Some luid \<and> luid \<noteq> [] \<and>
          search (''resource_type:raw AND tags:'' @ luid) lw = (Inr resources, lw1) \<longrightarrow>
            (\<exists>entries. listAll search lreq lw = (Inr entries, lw1) \<and>
               length entries = length resources \<and>
               (\<forall>k < length resources. stored_originalName (resources ! k) = name \<longrightarrow>
                  (\<exists>owner. entries ! k =
                     FileJson (r_public_id (resources ! k)) name None ''malicious'' owner))))"
proof -
  have b: "isKnownMalicious name"
    using assms isKnownMalicious_iff by blast
  have r: "resolve sf ga f pid w = (''malicious'', w, [])" if "originalname f = name" for pid
    using b that by (simp add: resolve_def)
  have u: "uploadHandler me sf ga us uuid req w =
      (FileJson (publicId_of me uuid f) name None ''malicious'' uid, w, [])"
    if "originalname f = name" "accepted me req f uid"
    using uploadHandler_resolve [OF that(2), of sf ga us uuid w] r that(1) by simp
  have l: "\<exists>owner. listEntry u r = FileJson (r_public_id r) name None ''malicious'' owner"
    if "stored_originalName r = name" for u r
    using b that by (simp add: listEntry_def)
  have la: "\<exists>entries. listAll search lreq lw = (Inr entries, lw1) \<and>
               length entries = length resources \<and>
               (\<forall>k < length resources. stored_originalName (resources ! k) = name \<longrightarrow>
                  (\<exists>owner. entries ! k =
                     FileJson (r_public_id (resources ! k)) name None ''malicious'' owner))"
    if "req_userId lreq = Some luid" "luid \<noteq> []"
      "search (''resource_type:raw AND tags:'' @ luid) lw = (Inr resources, lw1)"
  proof -
    have "listAll search lreq lw = (Inr (map (listEntry luid) resources), lw1)"
      using that by (simp add: listAll_def)
    moreover have "\<forall>k < length resources. stored_originalName (resources ! k) = name \<longrightarrow>
        (\<exists>owner. map (listEntry luid) resources ! k =
           FileJson (r_public_id (resources ! k)) name None ''malicious'' owner)"
      using l by simp
    ultimately show ?thesis by simp
  qed
  show ?thesis using b r u l [of r uid] la by blast
qed

theorem eicar_substring_is_blocked_witness:
  "toLowerCase ''Meicar-notes.pdf'' = ''m'' @ ''eicar'' @ ''-notes.pdf'' \<and>
   uploadHandler mime_table (scanFile_resolves ''scan-id-123'') answers upload_accepts ''uuid''
     (test_request (test_file ''Meicar-notes.pdf'' ''application/pdf'')) [Inr (completed 0)] =
   (FileJson ''uuid.pdf'' ''Meicar-notes.pdf'' None ''malicious'' ''user123'',
    [Inr (completed 0)], []) \<and>
   listEntry ''user123''
     \<lparr> r_public_id = ''file1'', r_secure_url = ''https://example.com/file1'',
       r_context = Some \<lparr> cx_verdict = Some ''clean'', cx_originalName = Some ''Meicar-notes.pdf'',
                           cx_custom = None, cx_userId = Some ''user123'' \<rparr>,
       r_tags = Some [''clean'', ''user123''] \<rparr> =
   FileJson ''file1'' ''Meicar-notes.pdf'' None ''malicious'' ''user123'' \<and>
   listAll
     (\<lambda>expression w.
        (Inr [\<lparr> r_public_id = ''file1'', r_secure_url = ''https://example.com/file1'',
                 r_context = Some \<lparr> cx_verdict = Some ''clean'',
                                     cx_originalName = Some ''Meicar-notes.pdf'',
                                     cx_custom = None, cx_userId = Some ''user123'' \<rparr>,
                 r_tags = Some [''clean'', ''user123''] \<rparr>], w))
     \<lparr> req_userId = Some ''user123'', req_file = None \<rparr> () =
   (Inr [FileJson ''file1'' ''Meicar-notes.pdf'' None ''malicious'' ''user123''], ())"
proof -
  let ?res = "\<lparr> r_public_id = ''file1'', r_secure_url = ''https://example.com/file1'',
                 r_context = Some \<lparr> cx_verdict = Some ''clean'',
                                     cx_originalName = Some ''Meicar-notes.pdf'',
                                     cx_custom = None, cx_userId = Some ''user123'' \<rparr>,
                 r_tags = Some [''clean'', ''user123''] \<rparr>"
  have low: "toLowerCase ''Meicar-notes.pdf'' = ''m'' @ ''eicar'' @ ''-notes.pdf''"
    by code_simp
  have acc: "accepted mime_table (test_request (test_file ''Meicar-notes.pdf'' ''application/pdf''))
               (test_file ''Meicar-notes.pdf'' ''application/pdf'') ''user123''"
    by (simp add: accepted_def test_request_def test_file_def mime_table_def allowed_def)
  have nm: "stored_originalName
     \<lparr> r_public_id = ''file1'', r_secure_url = ''https://example.com/file1'',
       r_context = Some \<lparr> cx_verdict = Some ''clean'', cx_originalName = Some ''Meicar-notes.pdf'',
                           cx_custom = None, cx_userId = Some ''user123'' \<rparr>,
       r_tags = Some [''clean'', ''user123''] \<rparr> = ''Meicar-notes.pdf''"
    by (simp add: stored_originalName_def truthy_def)
  have own: "listEntry ''user123''
     \<lparr> r_public_id = ''file1'', r_secure_url = ''https://example.com/file1'',
       r_context = Some \<lparr> cx_verdict = Some ''clean'', cx_originalName = Some ''Meicar-notes.pdf'',
                           cx_custom = None, cx_userId = Some ''user123'' \<rparr>,
       r_tags = Some [''clean'', ''user123''] \<rparr> = FileJson i n u v owner \<Longrightarrow> owner = ''user123''"
    for i n u v owner
    by (simp add: listEntry_def truthy_def Let_def)
  have lall: "listAll (\<lambda>expression w. (Inr [?res], w))
                \<lparr> req_userId = Some ''user123'', req_file = None \<rparr> () =
              (Inr [FileJson ''file1'' ''Meicar-notes.pdf'' None ''malicious'' ''user123''], ())"
    by code_simp
  show ?thesis
    using low acc nm own lall
      eicar_substring_is_blocked [OF low,
        of "test_file ''Meicar-notes.pdf'' ''application/pdf''"
           "scanFile_resolves ''scan-id-123''" answers "''uuid.pdf''" "[Inr (completed 0)]"
           mime_table "test_request (test_file ''Meicar-notes.pdf'' ''application/pdf'')"
           "''user123''" upload_accepts "''uuid''"
           ?res "\<lparr> req_userId = Some ''user123'', req_file = None \<rparr>" "''user123''"
           "\<lambda>expression w. (Inr [?res], w)" "()" "[?res]" "()"]
    by (auto simp: publicId_of_def test_file_def mime_table_def)
qed


text \<open>The definitions a concrete run of the controller unfolds.\<close>

lemmas run_defs = uploadHandler_def uploadToCloudinary_def resolve_def scanVerdict_def
  poll_loop.simps try_verdict_def verdict_of_def maxRetries_def isKnownMalicious_def
  knownMaliciousNames_def toLowerCase_def lower_char_def startsWith_def char_of_eq_iff
  answers_def scanFile_resolves_def scanFile_rejects_def getAnalysis_rejects_def
  upload_accepts_def mime_table_def
  completed_def queued_def test_file_def test_request_def allowed_def Let_def

lemma uploadHandler_accepted_cases:
  assumes acc: "accepted me req f uid"
    and res: "resolve sf ga f (publicId_of me uuid f) w = (v, w1, tr)"
  shows "(v = ''malicious'' \<and>
          uploadHandler me sf ga us uuid req w =
            (FileJson (publicId_of me uuid f) (originalname f) None ''malicious'' uid, w1, tr)) \<or>
         (v = ''clean'' \<and>
          (\<exists>body w2 opts. uploadHandler me sf ga us uuid req w = (body, w2, tr @ [UploadStream opts]) \<and>
             ctx_verdict opts = ''clean'' \<and>
             ((\<exists>i u. body = FileJson i (originalname f) (Some u) ''clean'' uid) \<or>
              (\<exists>m. body = ErrorJson 400 m))))"
proof -
  have v: "v = ''clean'' \<or> v = ''malicious''"
    using resolve_verdict [of sf ga f "publicId_of me uuid f" w] res by simp
  show ?thesis
  proof (cases "v = ''malicious''")
    case True
    then show ?thesis using uploadHandler_resolve [OF acc, of sf ga us uuid w] res by simp
  next
    case False
    then have c: "v = ''clean''" using v by simp
    show ?thesis
      using uploadHandler_resolve [OF acc, of sf ga us uuid w] res c
      by (auto simp: uploadToCloudinary_def Let_def split: prod.splits sum.splits)
  qed
qed

text \<open>
  C1. Whenever a poll of \<^verbatim>\<open>uploadHandler\<close>'s scanning loop is answered with status
  \<^verbatim>\<open>completed\<close> and statistics, the verdict decided for the upload is \<^verbatim>\<open>malicious\<close> if
  \<^verbatim>\<open>stats.malicious\<close> is greater than 0 and \<^verbatim>\<open>clean\<close> if it is 0, whatever the earlier polls
  gave. For a request that passed the request checks the handler then answers with that
  verdict: \<^verbatim>\<open>malicious\<close> without a URL, or \<^verbatim>\<open>clean\<close> with the URL of the stored file (unless the
  blob store rejects the clean file, which is answered with status 400).
\<close>

theorem completed_response_decides_verdict:
  assumes "GetAnalysis j (Inr r) \<in> set (snd (snd (resolve sf ga f pid w)))"
    and "status r = ''completed''" and "stats r = Some s"
  shows "(malicious s > 0 \<longrightarrow> fst (resolve sf ga f pid w) = ''malicious'') \<and>
         (malicious s = 0 \<longrightarrow> fst (resolve sf ga f pid w) = ''clean'') \<and>
         (accepted me req f uid \<and> pid = publicId_of me uuid f \<and> malicious s > 0 \<longrightarrow>
            fst (uploadHandler me sf ga us uuid req w) =
              FileJson pid (originalname f) None ''malicious'' uid) \<and>
         (accepted me req f uid \<and> pid = publicId_of me uuid f \<and> malicious s = 0 \<longrightarrow>
            (\<exists>i u. fst (uploadHandler me sf ga us uuid req w) =
                     FileJson i (originalname f) (Some u) ''clean'' uid) \<or>
            (\<exists>m. fst (uploadHandler me sf ga us uuid req w) = ErrorJson 400 m))"
proof -
  have nb: "\<not> isKnownMalicious (originalname f)"
    using assms(1) by (auto simp: resolve_def split: if_splits)
  then have "GetAnalysis j (Inr r) \<in> set (snd (snd (scanVerdict sf ga f pid w)))"
    using assms(1) by (simp add: resolve_def)
  from scanVerdict_completed [OF this assms(2,3)] nb
  have v: "fst (resolve sf ga f pid w) = (if malicious s > 0 then ''malicious'' else ''clean'')"
    by (simp add: resolve_def)
  obtain w1 tr where r: "resolve sf ga f pid w =
      ((if malicious s > 0 then ''malicious'' else ''clean''), w1, tr)"
    using v by (cases "resolve sf ga f pid w") simp
  have m: "fst (uploadHandler me sf ga us uuid req w) =
             FileJson pid (originalname f) None ''malicious'' uid"
    if "accepted me req f uid" "pid = publicId_of me uuid f" "malicious s > 0"
    using uploadHandler_accepted_cases [OF that(1), of sf ga uuid w _ w1 tr us] r that(2,3)
    by auto
  have c: "(\<exists>i u. fst (uploadHandler me sf ga us uuid req w) =
                   FileJson i (originalname f) (Some u) ''clean'' uid) \<or>
           (\<exists>m. fst (uploadHandler me sf ga us uuid req w) = ErrorJson 400 m)"
    if "accepted me req f uid" "pid = publicId_of me uuid f" "malicious s = 0"
    using uploadHandler_accepted_cases [OF that(1), of sf ga uuid w _ w1 tr us] r that(2,3)
    by auto
  show ?thesis using v m c by auto
qed

theorem completed_response_decides_verdict_witness:
  "GetAnalysis ''scan-id-456'' (Inr (completed 5)) \<in>
     set (snd (snd (resolve (scanFile_resolves ''scan-id-456'') answers
                      (test_file ''malicious.pdf'' ''application/pdf'') ''uuid.pdf''
                      [Inr queued, Inr (completed 5)]))) \<and>
   fst (resolve (scanFile_resolves ''scan-id-456'') answers
          (test_file ''malicious.pdf'' ''application/pdf'') ''uuid.pdf''
          [Inr queued, Inr (completed 5)]) = ''malicious'' \<and>
   fst (uploadHandler mime_table (scanFile_resolves ''scan-id-456'') answers upload_accepts
          ''uuid'' (test_request (test_file ''malicious.pdf'' ''application/pdf''))
          [Inr queued, Inr (completed 5)]) =
     FileJson ''uuid.pdf'' ''malicious.pdf'' None ''malicious'' ''user123'' \<and>
   fst (resolve (scanFile_resolves ''scan-id-123'') answers
          (test_file ''test.pdf'' ''application/pdf'') ''uuid.pdf''
          [Inr (completed 0)]) = ''clean''"
proof -
  have mal: "GetAnalysis ''scan-id-456'' (Inr (completed 5)) \<in>
     set (snd (snd (resolve (scanFile_resolves ''scan-id-456'') answers
                      (test_file ''malicious.pdf'' ''application/pdf'') ''uuid.pdf''
                      [Inr queued, Inr (completed 5)])))"
    by (simp add: run_defs)
  have cl: "GetAnalysis ''scan-id-123'' (Inr (completed 0)) \<in>
     set (snd (snd (resolve (scanFile_resolves ''scan-id-123'') answers
                      (test_file ''test.pdf'' ''application/pdf'') ''uuid.pdf''
                      [Inr (completed 0)])))"
    by (simp add: run_defs)
  have acc: "accepted mime_table (test_request (test_file ''malicious.pdf'' ''application/pdf''))
               (test_file ''malicious.pdf'' ''application/pdf'') ''user123''"
    by (simp add: accepted_def test_request_def test_file_def mime_table_def allowed_def)
  have pid: "''uuid.pdf'' =
      publicId_of mime_table ''uuid'' (test_file ''malicious.pdf'' ''application/pdf'')"
    by (simp add: publicId_of_def test_file_def mime_table_def)
  show ?thesis
    using mal acc pid
      completed_response_decides_verdict [OF mal,
        of "\<lparr> malicious = 5, suspicious = 0, harmless = 0 \<rparr>" mime_table
           "test_request (test_file ''malicious.pdf'' ''application/pdf'')" "''user123''"
           "''uuid''" upload_accepts]
      completed_response_decides_verdict [OF cl,
        of "\<lparr> malicious = 0, suspicious = 0, harmless = 0 \<rparr>"]
    by (simp add: completed_def test_file_def)
qed

text \<open>
  C3. In every run of \<^verbatim>\<open>uploadHandler\<close>: if the response carries the verdict \<^verbatim>\<open>malicious\<close>,
  the blob store's uploader was not called; every call of the uploader passes a verdict
  that is \<^verbatim>\<open>clean\<close> or \<^verbatim>\<open>unknown\<close>, and then the response does not say \<^verbatim>\<open>malicious\<close>; and for
  a request that passes the request checks, the uploader is called (once) exactly when
  the verdict decided for the upload is not \<^verbatim>\<open>malicious\<close>.
\<close>

theorem no_upload_for_malicious_verdict:
  assumes "uploadHandler me sf ga us uuid req w = (res, w', tr)"
  shows "(response_verdict res = Some ''malicious'' \<longrightarrow> filter is_upload tr = []) \<and>
         (\<forall>opts. UploadStream opts \<in> set tr \<longrightarrow>
            ctx_verdict opts \<in> {''clean'', ''unknown''} \<and>
            response_verdict res \<noteq> Some ''malicious'') \<and>
         (accepted me req f uid \<longrightarrow>
            (fst (resolve sf ga f (publicId_of me uuid f) w) = ''malicious'' \<longrightarrow>
               filter is_upload tr = []) \<and>
            (fst (resolve sf ga f (publicId_of me uuid f) w) \<noteq> ''malicious'' \<longrightarrow>
               length (filter is_upload tr) = 1))"
proof (cases "\<exists>f uid. accepted me req f uid")
  case False
  then have "tr = []"
    using uploadHandler_rejected [of me req sf ga us uuid w] assms by simp
  then show ?thesis using False by auto
next
  case True
  then obtain f' uid' where acc: "accepted me req f' uid'" by blast
  obtain v w1 tr1 where r: "resolve sf ga f' (publicId_of me uuid f') w = (v, w1, tr1)"
    by (cases "resolve sf ga f' (publicId_of me uuid f') w")
  have nu: "filter is_upload tr1 = []"
    using resolve_no_upload [of sf ga f' "publicId_of me uuid f'" w] r by simp
  then have nin: "UploadStream opts \<notin> set tr1" for opts
    by (auto simp: filter_empty_conv)
  have same: "f = f'" if "accepted me req f uid"
    using that acc by (simp add: accepted_def)
  from uploadHandler_accepted_cases [OF acc r, of us]
  show ?thesis
  proof
    assume m: "v = ''malicious'' \<and>
      uploadHandler me sf ga us uuid req w =
        (FileJson (publicId_of me uuid f') (originalname f') None ''malicious'' uid', w1, tr1)"
    then have "tr = tr1" using assms by simp
    then show ?thesis using m nu nin r same by auto
  next
    assume c: "v = ''clean'' \<and>
      (\<exists>body w2 opts. uploadHandler me sf ga us uuid req w = (body, w2, tr1 @ [UploadStream opts]) \<and>
         ctx_verdict opts = ''clean'' \<and>
         ((\<exists>i u. body = FileJson i (originalname f') (Some u) ''clean'' uid') \<or>
          (\<exists>m. body = ErrorJson 400 m)))"
    then obtain opts where o: "tr = tr1 @ [UploadStream opts]" "ctx_verdict opts = ''clean''"
      "response_verdict res \<noteq> Some ''malicious''"
      using assms by auto
    show ?thesis using c o nu nin r same by auto
  qed
qed

theorem no_upload_for_malicious_verdict_witness:
  "uploadHandler mime_table (scanFile_resolves ''scan-id-456'') answers upload_accepts ''uuid''
     (test_request (test_file ''malicious.pdf'' ''application/pdf'')) [Inr (completed 5)] =
   (FileJson ''uuid.pdf'' ''malicious.pdf'' None ''malicious'' ''user123'', [],
    [ScanFile ''uuid.pdf'', GetAnalysis ''scan-id-456'' (Inr (completed 5))]) \<and>
   filter is_upload [ScanFile ''uuid.pdf'', GetAnalysis ''scan-id-456'' (Inr (completed 5))] = []"
proof -
  have run: "uploadHandler mime_table (scanFile_resolves ''scan-id-456'') answers upload_accepts ''uuid''
     (test_request (test_file ''malicious.pdf'' ''application/pdf'')) [Inr (completed 5)] =
   (FileJson ''uuid.pdf'' ''malicious.pdf'' None ''malicious'' ''user123'', [],
    [ScanFile ''uuid.pdf'', GetAnalysis ''scan-id-456'' (Inr (completed 5))])"
    by (simp add: run_defs)
  show ?thesis
    using run no_upload_for_malicious_verdict [OF run] by simp
qed







text \<open>
  C5. The run of the verdict logic on an accepted upload whose submission gives the handle
  \<^verbatim>\<open>scan-id-123\<close> and whose every poll reports \<^verbatim>\<open>queued\<close>: the verdict is \<^verbatim>\<open>clean\<close> and exactly
  three polls are sent (the fourth scripted answer is left), but the wait after each poll
  is 5000 ms, less than the 8000 ms of \<open>POLLING_INTERVAL_MS\<close>.
\<close>

theorem pending_polls_are_5_seconds_apart:
  "resolve (scanFile_resolves ''scan-id-123'') answers
     (test_file ''test.pdf'' ''application/pdf'') ''uuid.pdf''
     [Inr queued, Inr queued, Inr queued, Inr queued] =
   (''clean'', [Inr queued],
    [ScanFile ''uuid.pdf'',
     GetAnalysis ''scan-id-123'' (Inr queued), Timeout 5000,
     GetAnalysis ''scan-id-123'' (Inr queued), Timeout 5000,
     GetAnalysis ''scan-id-123'' (Inr queued), Timeout 5000]) \<and>
   (5000::nat) < POLLING_INTERVAL_MS"
  by (simp add: run_defs POLLING_INTERVAL_MS_def)


subsection \<open>The scanner clients\<close>

lemmas client_defs = scripted_def answers_def http_error_def Error_def completed_def queued_def
  clean_result_def startsWith_def POLLING_INTERVAL_MS_def

lemma clean_result_verdict: "try_verdict (Inr clean_result) = Inr ''clean''"
  by (simp add: try_verdict_def verdict_of_def clean_result_def)

lemma getAnalysis_orig_returns: "\<exists>r. fst (getAnalysis_orig remote ident w) = Inr r"
  by (auto simp: getAnalysis_orig_def Let_def split: prod.splits sum.splits)

lemma getAnalysis_orig_synthetic:
  "startsWith ident ''file-'' \<Longrightarrow> fst (getAnalysis_orig remote ident w) = Inr clean_result"
  by (auto simp: getAnalysis_orig_def Let_def split: prod.splits sum.splits)

text \<open>
  C9. The original \<^verbatim>\<open>getAnalysis\<close> returns a result for every handle and every answer of the
  remote service, never an error. On the whole \<^verbatim>\<open>file-\<close> handle path, on every failed
  request and on every \<^verbatim>\<open>queued\<close> or \<^verbatim>\<open>pending\<close> analysis the result is the fixed object with
  status \<^verbatim>\<open>completed\<close> and \<^verbatim>\<open>stats.malicious = 0\<close>; so the controller's loop, polling a \<^verbatim>\<open>file-\<close>
  handle through this function, decides \<^verbatim>\<open>clean\<close>.
\<close>

theorem original_getAnalysis_always_completed_clean:
  "(\<exists>r. fst (getAnalysis_orig remote ident w) = Inr r) \<and>
   (startsWith ident ''file-'' \<longrightarrow> fst (getAnalysis_orig remote ident w) = Inr clean_result) \<and>
   (\<not> startsWith ident ''file-'' \<and> (\<exists>e. fst (get_analysis remote ident w) = Inl e) \<longrightarrow>
      fst (getAnalysis_orig remote ident w) = Inr clean_result) \<and>
   (\<not> startsWith ident ''file-'' \<and>
    (\<exists>a. fst (get_analysis remote ident w) = Inr a \<and>
         (status a = ''queued'' \<or> status a = ''pending'')) \<longrightarrow>
      fst (getAnalysis_orig remote ident w) = Inr clean_result) \<and>
   status clean_result = ''completed'' \<and>
   map_option malicious (stats clean_result) = Some 0 \<and>
   (startsWith ident ''file-'' \<longrightarrow>
      fst (poll_loop (getAnalysis_orig remote) ident ''pending'' 0 w) = ''clean'')"
proof -
  have e: "fst (getAnalysis_orig remote ident w) = Inr clean_result"
    if "\<not> startsWith ident ''file-''" "\<exists>e. fst (get_analysis remote ident w) = Inl e"
    using that by (auto simp: getAnalysis_orig_def split: prod.splits sum.splits)
  have q: "fst (getAnalysis_orig remote ident w) = Inr clean_result"
    if "\<not> startsWith ident ''file-''"
      "\<exists>a. fst (get_analysis remote ident w) = Inr a \<and> (status a = ''queued'' \<or> status a = ''pending'')"
    using that by (auto simp: getAnalysis_orig_def split: prod.splits sum.splits)
  have l: "fst (poll_loop (getAnalysis_orig remote) ident ''pending'' 0 w) = ''clean''"
    if sw: "startsWith ident ''file-''"
  proof -
    obtain w1 where g: "getAnalysis_orig remote ident w = (Inr clean_result, w1)"
      using getAnalysis_orig_synthetic [OF sw, of remote w]
      by (cases "getAnalysis_orig remote ident w") simp
    have "poll_loop (getAnalysis_orig remote) ident ''pending'' 0 w =
            (''clean'', w1, [GetAnalysis ident (Inr clean_result)])"
      by (rule poll_loop_settled [where g = "getAnalysis_orig remote", OF _ g clean_result_verdict])
         (simp_all add: maxRetries_def)
    then show ?thesis by simp
  qed
  show ?thesis
    using getAnalysis_orig_returns [of remote ident w] getAnalysis_orig_synthetic [of ident remote w]
      e q l
    by (simp add: clean_result_def)
qed

theorem original_getAnalysis_always_completed_clean_witness:
  "startsWith ''file-ab12'' ''file-'' \<and>
   fst (getAnalysis_orig scripted ''file-ab12''
          ([Inr \<lparr> fi_id = ''ab12'',
                   last_analysis_stats = Some \<lparr> malicious = 7, suspicious = 0, harmless = 0 \<rparr>,
                   last_analysis_id = None \<rparr>], [], [])) = Inr clean_result \<and>
   \<not> startsWith ''analysis-1'' ''file-'' \<and>
   fst (get_analysis scripted ''analysis-1'' ([], [], [Inr queued])) = Inr queued \<and>
   fst (getAnalysis_orig scripted ''analysis-1'' ([], [], [Inr queued])) = Inr clean_result"
proof -
  have s: "startsWith ''file-ab12'' ''file-''" by (simp add: startsWith_def)
  have n: "\<not> startsWith ''analysis-1'' ''file-''" by (simp add: startsWith_def)
  have g: "fst (get_analysis scripted ''analysis-1'' ([], [], [Inr queued])) = Inr queued"
    by (simp add: scripted_def)
  have st: "status queued = ''queued''" by (simp add: queued_def)
  show ?thesis
    using s n g st
      original_getAnalysis_always_completed_clean [of scripted "''file-ab12''"
        "([Inr \<lparr> fi_id = ''ab12'',
                   last_analysis_stats = Some \<lparr> malicious = 7, suspicious = 0, harmless = 0 \<rparr>,
                   last_analysis_id = None \<rparr>], [], [])"]
      original_getAnalysis_always_completed_clean [of scripted "''analysis-1''"
        "([], [], [Inr queued])"]
    by simp
qed

text \<open>
  C6, as stated, fails on the original \<^verbatim>\<open>getAnalysis\<close>: for an analysis that the remote
  service reports as \<^verbatim>\<open>queued\<close> it returns the completed object without detections, which
  the controller reads as the final verdict \<^verbatim>\<open>clean\<close>.
\<close>

theorem original_getAnalysis_queued_is_terminal_clean:
  "fst (get_analysis scripted ''analysis-1'' ([], [], [Inr queued])) = Inr queued \<and>
   status queued = ''queued'' \<and>
   fst (getAnalysis_orig scripted ''analysis-1'' ([], [], [Inr queued])) = Inr clean_result \<and>
   status clean_result = ''completed'' \<and>
   try_verdict (Inr clean_result) = Inr ''clean''"
  by (simp add: getAnalysis_orig_def client_defs try_verdict_def verdict_of_def)

text \<open>
  C6, amended. The revised \<^verbatim>\<open>getAnalysis\<close>, called with a handle that is not a 64-digit hex
  fingerprint, reports every analysis whose status is not \<^verbatim>\<open>completed\<close> (\<^verbatim>\<open>queued\<close> and
  \<^verbatim>\<open>pending\<close> among them) and every 400 answer with code \<^verbatim>\<open>NotAvailableYet\<close> by throwing
  \<^verbatim>\<open>ANALYSIS_PENDING\<close>: no result, hence no verdict, is returned.
\<close>

theorem revised_getAnalysis_reports_pending:
  assumes "\<not> isFileHash ident"
  shows "(get_analysis remote ident w = (Inr a, w1) \<and> status a \<noteq> ''completed'' \<longrightarrow>
            getAnalysis_rev remote ident w = (Inl (Error ''ANALYSIS_PENDING''), w1)) \<and>
         (get_analysis remote ident w = (Inl e, w1) \<and> response e = Some resp \<and>
          resp_status resp = 400 \<and> resp_error_code resp = Some ''NotAvailableYet'' \<longrightarrow>
            getAnalysis_rev remote ident w = (Inl (Error ''ANALYSIS_PENDING''), w1))"
  using assms by (simp add: getAnalysis_rev_def)

theorem revised_getAnalysis_reports_pending_witness:
  "\<not> isFileHash ''analysis-1'' \<and>
   get_analysis scripted ''analysis-1'' ([], [], [Inr queued]) = (Inr queued, ([], [], [])) \<and>
   status queued \<noteq> ''completed'' \<and>
   getAnalysis_rev scripted ''analysis-1'' ([], [], [Inr queued]) =
     (Inl (Error ''ANALYSIS_PENDING''), ([], [], []))"
proof -
  have h: "\<not> isFileHash ''analysis-1''" by (simp add: isFileHash_def)
  have g: "get_analysis scripted ''analysis-1'' ([], [], [Inr queued]) = (Inr queued, ([], [], []))"
    by (simp add: scripted_def)
  have st: "status queued \<noteq> ''completed''" by (simp add: queued_def)
  show ?thesis
    using h g st
      revised_getAnalysis_reports_pending [OF h, of scripted "([], [], [Inr queued])" queued
        "([], [], [])"]
    by simp
qed


lemma waitForAnalysis_loop_polls:
  "length (filter is_poll (snd (snd (waitForAnalysis_loop ga ident max_retries retries w))))
     \<le> max_retries - retries"
proof (induction "max_retries - retries" arbitrary: retries w rule: less_induct)
  case less
  show ?case
  proof (cases "retries < max_retries")
    case False
    then show ?thesis by (subst waitForAnalysis_loop.simps) simp
  next
    case True
    have IH: "length (filter is_poll (snd (snd (waitForAnalysis_loop ga ident max_retries (retries + 1) w1))))
                \<le> max_retries - (retries + 1)" for w1
      using less [of "retries + 1" w1] True by simp
    obtain r w1 where g: "ga ident w = (r, w1)" by (cases "ga ident w")
    obtain res w' tr where nxt:
      "waitForAnalysis_loop ga ident max_retries (retries + 1) w1 = (res, w', tr)"
      by (cases "waitForAnalysis_loop ga ident max_retries (retries + 1) w1")
    have tr: "length (filter is_poll tr) \<le> max_retries - (retries + 1)"
      using IH [of w1] nxt by simp
    show ?thesis
      using True g nxt tr
      by (subst waitForAnalysis_loop.simps) (auto simp: Let_def split: sum.splits)
  qed
qed

lemma waitForAnalysis_loop_head:
  assumes "0 < retries" and "retries < max_retries"
  shows "\<exists>rest. snd (snd (waitForAnalysis_loop ga ident max_retries retries w)) =
           Timeout POLLING_INTERVAL_MS # GetAnalysis ident (fst (ga ident w)) # rest"
  using assms
  by (subst waitForAnalysis_loop.simps) (auto simp: Let_def split: prod.splits sum.splits)

lemma waitForAnalysis_loop_exhausted:
  "\<not> retries < max_retries \<Longrightarrow>
   waitForAnalysis_loop ga ident max_retries retries w = (Inl (Error ''ANALYSIS_TIMEOUT''), w, [])"
  by (subst waitForAnalysis_loop.simps) simp

text \<open>
  C7, as stated, fails: with a budget of one attempt, a rate-limited first poll ends
  \<^verbatim>\<open>waitForAnalysis\<close> with \<^verbatim>\<open>ANALYSIS_TIMEOUT\<close> after the 16-second wait. The completed result
  that the next poll would have fetched is never asked for: the rate-limited poll used up
  the attempt.
\<close>

theorem rate_limited_poll_uses_up_the_budget:
  "waitForAnalysis_loop answers ''analysis-1'' 1 0
     [Inl (Error ''RATE_LIMIT_EXCEEDED''), Inr (completed 0)] =
   (Inl (Error ''ANALYSIS_TIMEOUT''), [Inr (completed 0)],
    [GetAnalysis ''analysis-1'' (Inl (Error ''RATE_LIMIT_EXCEEDED'')), Timeout 16000])"
  by (simp add: waitForAnalysis_loop.simps client_defs)

text \<open>
  C7, amended. In \<^verbatim>\<open>waitForAnalysis\<close> a rate-limited poll is followed by a wait of twice the
  polling interval, and it consumes one attempt of the retry budget: the loop goes on from
  \<open>retries + 1\<close>, exactly as after a result that is not completed (which has no such wait).
  If an attempt is left, the next poll is sent, whatever it will give, after the regular
  polling interval on top of the doubled wait; if none is left, the loop ends with
  \<^verbatim>\<open>ANALYSIS_TIMEOUT\<close> right after the doubled wait. Whatever the polls give, rate limits
  included, at most \<open>max_retries - retries\<close> polls are sent.
\<close>

theorem rate_limit_waits_double_and_consumes_attempt:
  assumes "retries < max_retries"
  shows "(ga ident w = (Inl e, w1) \<and> message e = ''RATE_LIMIT_EXCEEDED'' \<longrightarrow>
            waitForAnalysis_loop ga ident max_retries retries w =
              (case waitForAnalysis_loop ga ident max_retries (retries + 1) w1 of
                 (res, w', tr) \<Rightarrow>
                   (res, w',
                    (if retries > 0 then [Timeout POLLING_INTERVAL_MS] else []) @
                    GetAnalysis ident (Inl e) # Timeout (2 * POLLING_INTERVAL_MS) # tr))) \<and>
         (ga ident w = (Inr a, w1) \<and> status a \<noteq> ''completed'' \<longrightarrow>
            waitForAnalysis_loop ga ident max_retries retries w =
              (case waitForAnalysis_loop ga ident max_retries (retries + 1) w1 of
                 (res, w', tr) \<Rightarrow>
                   (res, w',
                    (if retries > 0 then [Timeout POLLING_INTERVAL_MS] else []) @
                    GetAnalysis ident (Inr a) # tr))) \<and>
         length (filter is_poll (snd (snd (waitForAnalysis_loop ga ident max_retries retries w))))
           \<le> max_retries - retries \<and>
         (ga ident w = (Inl e, w1) \<and> message e = ''RATE_LIMIT_EXCEEDED'' \<and>
          retries + 1 < max_retries \<longrightarrow>
            (\<exists>rest. snd (snd (waitForAnalysis_loop ga ident max_retries retries w)) =
               (if retries > 0 then [Timeout POLLING_INTERVAL_MS] else []) @
               GetAnalysis ident (Inl e) # Timeout (2 * POLLING_INTERVAL_MS) #
               Timeout POLLING_INTERVAL_MS # GetAnalysis ident (fst (ga ident w1)) # rest)) \<and>
         (ga ident w = (Inl e, w1) \<and> message e = ''RATE_LIMIT_EXCEEDED'' \<and>
          \<not> retries + 1 < max_retries \<longrightarrow>
            waitForAnalysis_loop ga ident max_retries retries w =
              (Inl (Error ''ANALYSIS_TIMEOUT''), w1,
               (if retries > 0 then [Timeout POLLING_INTERVAL_MS] else []) @
               [GetAnalysis ident (Inl e), Timeout (2 * POLLING_INTERVAL_MS)]))"
proof -
  have rl: "waitForAnalysis_loop ga ident max_retries retries w =
      (case waitForAnalysis_loop ga ident max_retries (retries + 1) w1 of
         (res, w', tr) \<Rightarrow>
           (res, w',
            (if retries > 0 then [Timeout POLLING_INTERVAL_MS] else []) @
            GetAnalysis ident (Inl e) # Timeout (2 * POLLING_INTERVAL_MS) # tr))"
    if "ga ident w = (Inl e, w1)" "message e = ''RATE_LIMIT_EXCEEDED''"
    using assms that
    by (subst waitForAnalysis_loop.simps) (simp add: Let_def mult.commute)
  have pd: "waitForAnalysis_loop ga ident max_retries retries w =
      (case waitForAnalysis_loop ga ident max_retries (retries + 1) w1 of
         (res, w', tr) \<Rightarrow>
           (res, w',
            (if retries > 0 then [Timeout POLLING_INTERVAL_MS] else []) @
            GetAnalysis ident (Inr a) # tr))"
    if "ga ident w = (Inr a, w1)" "status a \<noteq> ''completed''"
    using assms that
    by (subst waitForAnalysis_loop.simps) (simp add: Let_def)
  have nx: "\<exists>rest. snd (snd (waitForAnalysis_loop ga ident max_retries retries w)) =
               (if retries > 0 then [Timeout POLLING_INTERVAL_MS] else []) @
               GetAnalysis ident (Inl e) # Timeout (2 * POLLING_INTERVAL_MS) #
               Timeout POLLING_INTERVAL_MS # GetAnalysis ident (fst (ga ident w1)) # rest"
    if h: "ga ident w = (Inl e, w1)" "message e = ''RATE_LIMIT_EXCEEDED''"
      "retries + 1 < max_retries"
  proof -
    obtain rest where
      "snd (snd (waitForAnalysis_loop ga ident max_retries (retries + 1) w1)) =
         Timeout POLLING_INTERVAL_MS # GetAnalysis ident (fst (ga ident w1)) # rest"
      using waitForAnalysis_loop_head [of "retries + 1" max_retries ga ident w1] h(3) by auto
    then show ?thesis
      using rl [OF h(1,2)] by (auto split: prod.splits)
  qed
  have ex: "waitForAnalysis_loop ga ident max_retries retries w =
              (Inl (Error ''ANALYSIS_TIMEOUT''), w1,
               (if retries > 0 then [Timeout POLLING_INTERVAL_MS] else []) @
               [GetAnalysis ident (Inl e), Timeout (2 * POLLING_INTERVAL_MS)])"
    if h: "ga ident w = (Inl e, w1)" "message e = ''RATE_LIMIT_EXCEEDED''"
      "\<not> retries + 1 < max_retries"
    using rl [OF h(1,2)] waitForAnalysis_loop_exhausted [OF h(3), of ga ident w1] by simp
  show ?thesis
    using rl pd nx ex waitForAnalysis_loop_polls [of ga ident max_retries retries w] by blast
qed

theorem rate_limit_waits_double_and_consumes_attempt_witness:
  "(0::nat) < 3 \<and>
   answers ''analysis-1'' [Inl (Error ''RATE_LIMIT_EXCEEDED''), Inr (completed 0)] =
     (Inl (Error ''RATE_LIMIT_EXCEEDED''), [Inr (completed 0)]) \<and>
   message (Error ''RATE_LIMIT_EXCEEDED'') = ''RATE_LIMIT_EXCEEDED'' \<and>
   waitForAnalysis_loop answers ''analysis-1'' 3 1 [Inr (completed 0)] =
     (Inr (completed 0), [],
      [Timeout 8000, GetAnalysis ''analysis-1'' (Inr (completed 0))]) \<and>
   waitForAnalysis_loop answers ''analysis-1'' 3 0
     [Inl (Error ''RATE_LIMIT_EXCEEDED''), Inr (completed 0)] =
     (Inr (completed 0), [],
      [GetAnalysis ''analysis-1'' (Inl (Error ''RATE_LIMIT_EXCEEDED'')), Timeout 16000,
       Timeout 8000, GetAnalysis ''analysis-1'' (Inr (completed 0))]) \<and>
   answers ''analysis-1'' [Inl (Error ''RATE_LIMIT_EXCEEDED''), Inl (http_error 500)] =
     (Inl (Error ''RATE_LIMIT_EXCEEDED''), [Inl (http_error 500)]) \<and>
   (0::nat) + 1 < 3 \<and>
   (\<exists>rest. snd (snd (waitForAnalysis_loop answers ''analysis-1'' 3 0
                        [Inl (Error ''RATE_LIMIT_EXCEEDED''), Inl (http_error 500)])) =
      GetAnalysis ''analysis-1'' (Inl (Error ''RATE_LIMIT_EXCEEDED'')) # Timeout 16000 #
      Timeout 8000 # GetAnalysis ''analysis-1'' (Inl (http_error 500)) # rest)"
proof -
  have g5: "answers ''analysis-1'' [Inl (Error ''RATE_LIMIT_EXCEEDED''), Inl (http_error 500)] =
     (Inl (Error ''RATE_LIMIT_EXCEEDED''), [Inl (http_error 500)])"
    by (simp add: answers_def)
  have b1: "(0::nat) + 1 < 3" by simp
  have b: "(0::nat) < 3" by simp
  have g: "answers ''analysis-1'' [Inl (Error ''RATE_LIMIT_EXCEEDED''), Inr (completed 0)] =
     (Inl (Error ''RATE_LIMIT_EXCEEDED''), [Inr (completed 0)])"
    by (simp add: answers_def)
  have m: "message (Error ''RATE_LIMIT_EXCEEDED'') = ''RATE_LIMIT_EXCEEDED''"
    by (simp add: Error_def)
  have nxt: "waitForAnalysis_loop answers ''analysis-1'' 3 1 [Inr (completed 0)] =
     (Inr (completed 0), [],
      [Timeout 8000, GetAnalysis ''analysis-1'' (Inr (completed 0))])"
    by (simp add: waitForAnalysis_loop.simps client_defs)
  have r5: "\<exists>rest. snd (snd (waitForAnalysis_loop answers ''analysis-1'' 3 0
                        [Inl (Error ''RATE_LIMIT_EXCEEDED''), Inl (http_error 500)])) =
      GetAnalysis ''analysis-1'' (Inl (Error ''RATE_LIMIT_EXCEEDED'')) # Timeout 16000 #
      Timeout 8000 # GetAnalysis ''analysis-1'' (Inl (http_error 500)) # rest"
    using g5 m b1
      rate_limit_waits_double_and_consumes_attempt [OF b, of answers "''analysis-1''"
        "[Inl (Error ''RATE_LIMIT_EXCEEDED''), Inl (http_error 500)]"
        "Error ''RATE_LIMIT_EXCEEDED''" "[Inl (http_error 500)]",
        THEN conjunct2, THEN conjunct2, THEN conjunct2, THEN conjunct1]
    by (simp add: POLLING_INTERVAL_MS_def answers_def)
  show ?thesis
    using b g m nxt g5 b1 r5
      rate_limit_waits_double_and_consumes_attempt [OF b, of answers "''analysis-1''"
        "[Inl (Error ''RATE_LIMIT_EXCEEDED''), Inr (completed 0)]"
        "Error ''RATE_LIMIT_EXCEEDED''" "[Inr (completed 0)]"]
    by (simp add: POLLING_INTERVAL_MS_def)
qed

text \<open>
  C8, as stated, fails: the lookup misses (404), the upload is answered 409 and the
  repeated lookup misses again; \<^verbatim>\<open>scanFile\<close> then fails with the error of the repeated
  lookup instead of returning the fingerprint as a handle.
\<close>

theorem conflict_with_failed_retry_fails:
  "scanFile_orig (\<lambda>b. ''ab12'') scripted [116, 101, 115, 116] ''uuid.pdf''
     ([Inl (http_error 404), Inl (http_error 404)], [Inl (http_error 409)], []) =
   (Inl (http_error 404), ([], [], []),
    [GetFile ''ab12'', PostFile ''uuid.pdf'', GetFile ''ab12''])"
  by (simp add: scanFile_orig_def client_defs Let_def)

text \<open>
  C8, amended. When the upload of the original \<^verbatim>\<open>scanFile\<close> is answered with status 409 or
  400, the fingerprint is looked up exactly once more; if that lookup finds the file, its
  id is returned; if it fails after a 409, \<^verbatim>\<open>scanFile\<close> fails with the error of that lookup.
\<close>

theorem upload_conflict_retries_lookup_once:
  assumes "get_file remote (sha256 buf) w = (Inl e0, w1)"
    and "post_file remote buf filename w1 = (Inl e1, w2)"
    and "response e1 = Some resp"
    and "resp_status resp = 409 \<or> resp_status resp = 400"
  shows "snd (snd (scanFile_orig sha256 remote buf filename w)) =
           [GetFile (sha256 buf), PostFile filename, GetFile (sha256 buf)] \<and>
         (get_file remote (sha256 buf) w2 = (Inr info, w3) \<longrightarrow>
            fst (scanFile_orig sha256 remote buf filename w) = Inr (fi_id info)) \<and>
         (resp_status resp = 409 \<and> get_file remote (sha256 buf) w2 = (Inl e2, w3) \<longrightarrow>
            fst (scanFile_orig sha256 remote buf filename w) = Inl e2)"
  using assms
  by (auto simp: scanFile_orig_def Let_def split: prod.splits sum.splits)

theorem upload_conflict_retries_lookup_once_witness:
  "get_file scripted ''ab12''
     ([Inl (http_error 404),
       Inr \<lparr> fi_id = ''ab12'', last_analysis_stats = None, last_analysis_id = None \<rparr>],
      [Inl (http_error 400)], []) =
   (Inl (http_error 404),
    ([Inr \<lparr> fi_id = ''ab12'', last_analysis_stats = None, last_analysis_id = None \<rparr>],
     [Inl (http_error 400)], [])) \<and>
   scanFile_orig (\<lambda>b. ''ab12'') scripted [116, 101, 115, 116] ''uuid.pdf''
     ([Inl (http_error 404),
       Inr \<lparr> fi_id = ''ab12'', last_analysis_stats = None, last_analysis_id = None \<rparr>],
      [Inl (http_error 400)], []) =
   (Inr ''ab12'', ([], [], []), [GetFile ''ab12'', PostFile ''uuid.pdf'', GetFile ''ab12''])"
proof -
  let ?info = "\<lparr> fi_id = ''ab12'', last_analysis_stats = None, last_analysis_id = None \<rparr>"
  have g0: "get_file scripted ((\<lambda>b. ''ab12'') [116, 101, 115, 116])
              ([Inl (http_error 404), Inr ?info], [Inl (http_error 400)], []) =
            (Inl (http_error 404), ([Inr ?info], [Inl (http_error 400)], []))"
    by (simp add: scripted_def)
  have p: "post_file scripted [116, 101, 115, 116] ''uuid.pdf''
              ([Inr ?info], [Inl (http_error 400)], []) =
            (Inl (http_error 400), ([Inr ?info], [], []))"
    by (simp add: scripted_def)
  have r: "response (http_error 400) = Some \<lparr> resp_status = 400, resp_error_code = None \<rparr>"
    by (simp add: http_error_def)
  have c: "resp_status \<lparr> resp_status = 400, resp_error_code = None \<rparr> = 409 \<or>
           resp_status \<lparr> resp_status = 400, resp_error_code = None \<rparr> = 400"
    by simp
  have g1: "get_file scripted ((\<lambda>b. ''ab12'') [116, 101, 115, 116]) ([Inr ?info], [], []) =
            (Inr ?info, ([], [], []))"
    by (simp add: scripted_def)
  show ?thesis
    using g0 g1 upload_conflict_retries_lookup_once [OF g0 p r c, of ?info "([], [], [])"]
    by (simp add: scanFile_orig_def client_defs Let_def)
qed

text \<open>
  What \<^verbatim>\<open>scanFile\<close> does when the repeated lookup fails after a 400: the \<^verbatim>\<open>ReferenceError\<close> of
  line 76.
\<close>

lemma bad_request_with_failed_retry:
  "scanFile_orig (\<lambda>b. ''ab12'') scripted [116, 101, 115, 116] ''uuid.pdf''
     ([Inl (http_error 404), Inl (http_error 404)], [Inl (http_error 400)], []) =
   (Inl (Error ''hash is not defined''), ([], [], []),
    [GetFile ''ab12'', PostFile ''uuid.pdf'', GetFile ''ab12''])"
  by (simp add: scanFile_orig_def client_defs Let_def)


end
